theory Spec2Isabelle
  imports Complex_Main "HOL-Library.Sublist"
begin

section \<open>Python primitives used by the retrieval core\<close>

text \<open>
  The source is Python. Its unbounded integers are \<^typ>\<open>int\<close>, its strings are
  \<^typ>\<open>string\<close>, its lists are HOL lists, and every exception the modelled code can
  raise is a value of \<open>py_error\<close>, returned as \<open>Inl\<close> of a sum.
\<close>

datatype py_error =
    ValueError
  | ZeroDivisionError
  | IndexError
  | AssertionError
  | JSONDecodeError

text \<open>
  \<open>str.isspace\<close> for one character, restricted to the code points a \<^typ>\<open>char\<close>
  has: TAB..CR, FS..US, space, NEL and NBSP.
\<close>

definition isspace :: "char \<Rightarrow> bool" where
  "isspace c =
     (let n = (of_char c :: nat)
      in (9 \<le> n \<and> n \<le> 13) \<or> (28 \<le> n \<and> n \<le> 32) \<or> n = 133 \<or> n = 160)"

text \<open>
  \<open>s.split()\<close> with no argument: the maximal runs of non-whitespace characters, in
  order; never an empty string. \<open>split_acc w s\<close> scans \<open>s\<close> with the word \<open>w\<close>
  read so far.
\<close>

fun split_acc :: "string \<Rightarrow> string \<Rightarrow> string list" where
  "split_acc w [] = (if w = [] then [] else [w])"
| "split_acc w (c # cs) =
     (if isspace c then (if w = [] then split_acc [] cs else w # split_acc [] cs)
      else split_acc (w @ [c]) cs)"

definition py_split :: "string \<Rightarrow> string list" where
  "py_split s = split_acc [] s"

text \<open>\<open>sep.join(xs)\<close>.\<close>

fun py_join :: "string \<Rightarrow> string list \<Rightarrow> string" where
  "py_join sep [] = []"
| "py_join sep [x] = x"
| "py_join sep (x # y # ys) = x @ sep @ py_join sep (y # ys)"

text \<open>\<open>s.strip()\<close>: whitespace removed at both ends.\<close>

definition py_strip :: "string \<Rightarrow> string" where
  "py_strip s = rev (dropWhile isspace (rev (dropWhile isspace s)))"

text \<open>
  \<open>re.split(r'[.!?]+', s)\<close>: the pieces between the maximal runs of sentence-terminal
  punctuation, empty pieces included (one more piece than there are runs).
\<close>

definition is_terminal :: "char \<Rightarrow> bool" where
  "is_terminal c = (c = CHR ''.'' \<or> c = CHR ''!'' \<or> c = CHR ''?'')"

function re_split_acc :: "string \<Rightarrow> string \<Rightarrow> string list" where
  "re_split_acc w [] = [w]"
| "re_split_acc w (c # cs) =
     (if is_terminal c then w # re_split_acc [] (dropWhile is_terminal cs)
      else re_split_acc (w @ [c]) cs)"
  by pat_completeness auto
termination
  by (relation "measure (\<lambda>(w, s). length s)")
     (auto simp: length_dropWhile_le le_imp_less_Suc)

definition re_split_terminal :: "string \<Rightarrow> string list" where
  "re_split_terminal s = re_split_acc [] s"

text \<open>\<open>str(n)\<close> for a Python integer: decimal digits, a leading minus sign when negative.\<close>

definition digit_char :: "nat \<Rightarrow> char" where
  "digit_char d = char_of (48 + d)"

function str_nat :: "nat \<Rightarrow> string" where
  "str_nat n = (if n < 10 then [digit_char n] else str_nat (n div 10) @ [digit_char (n mod 10)])"
  by pat_completeness auto
termination
  by (relation "measure id") auto

declare str_nat.simps [simp del]

definition str_int :: "int \<Rightarrow> string" where
  "str_int i = (if i < 0 then CHR ''-'' # str_nat (nat (- i)) else str_nat (nat i))"

text \<open>
  A slice \<open>xs[a:b]\<close>: a negative bound counts from the end, and both bounds are clamped to
  the list.
\<close>

definition py_clamp :: "nat \<Rightarrow> int \<Rightarrow> nat" where
  "py_clamp n k = (if k < 0 then nat (max (k + int n) 0) else min (nat k) n)"

definition py_slice :: "'a list \<Rightarrow> int \<Rightarrow> int \<Rightarrow> 'a list" where
  "py_slice xs a b =
     (let lo = py_clamp (length xs) a; hi = py_clamp (length xs) b
      in take (hi - lo) (drop lo xs))"

text \<open>\<open>xs[:b]\<close> and \<open>xs[a:]\<close>.\<close>

definition py_prefix :: "'a list \<Rightarrow> int \<Rightarrow> 'a list" where
  "py_prefix xs b = take (py_clamp (length xs) b) xs"

definition py_suffix :: "'a list \<Rightarrow> int \<Rightarrow> 'a list" where
  "py_suffix xs a = drop (py_clamp (length xs) a) xs"

text \<open>\<open>xs[i]\<close>: a negative index counts from the end; out of range raises IndexError.\<close>

definition py_index :: "'a list \<Rightarrow> int \<Rightarrow> py_error + 'a" where
  "py_index xs i =
     (if 0 \<le> i \<and> i < int (length xs) then Inr (xs ! nat i)
      else if i < 0 \<and> - int (length xs) \<le> i then Inr (xs ! nat (int (length xs) + i))
      else Inl IndexError)"

text \<open>
  \<open>range(start, stop, step)\<close> as the list of its values, for a step other than zero
  (\<open>range\<close> raises ValueError on a zero step; the caller models that).
\<close>

function py_range :: "int \<Rightarrow> int \<Rightarrow> int \<Rightarrow> int list" where
  "py_range i stop step =
     (if (0 < step \<and> i < stop) \<or> (step < 0 \<and> stop < i)
      then i # py_range (i + step) stop step else [])"
  by pat_completeness auto
termination
  by (relation "measure (\<lambda>(i, stop, step). nat (if 0 < step then stop - i else i - stop))")
     auto

declare py_range.simps [simp del]

section \<open>Configuration and records\<close>

text \<open>
  The fields of \<open>Config\<close> that the modelled code reads. Paths, model names and the API key
  are not read by any modelled function.
\<close>

record config =
  MAX_DOCUMENTS :: int
  CHUNK_SIZE :: int
  CHUNK_OVERLAP :: int
  SMART_CHUNKING :: bool
  TOP_K :: int
  SIMILARITY_THRESHOLD :: real

definition default_config :: config where
  "default_config =
     \<lparr>MAX_DOCUMENTS = 400, CHUNK_SIZE = 300, CHUNK_OVERLAP = 50, SMART_CHUNKING = True,
      TOP_K = 3, SIMILARITY_THRESHOLD = 0.3\<rparr>"

text \<open>The \<open>metadata\<close> dictionary of a document, copied into each of its chunks.\<close>

record metadata =
  year :: string
  genres :: "string list"
  title :: string

text \<open>A preprocessed document (the dictionary built by \<open>DataLoader\<close>).\<close>

record document =
  doc_title :: string
  doc_year :: string
  doc_content :: string
  doc_genres :: "string list"
  doc_metadata :: metadata

text \<open>A chunk (the dictionary built by \<open>SmartChunker\<close>).\<close>

record chunk =
  content :: string
  metadata :: metadata
  chunk_id :: string

section \<open>SmartChunker\<close>

subsection \<open>Fixed-size chunking\<close>

text \<open>
  The body of the loop of \<open>_fixed_size_chunking\<close> at window start \<open>i\<close>: the chunk it
  appends. The f-string divides by \<open>CHUNK_SIZE\<close>, which raises on zero.
\<close>

definition fixed_chunk :: "config \<Rightarrow> string list \<Rightarrow> document \<Rightarrow> int \<Rightarrow> py_error + chunk" where
  "fixed_chunk cfg words doc i =
     (if CHUNK_SIZE cfg = 0 then Inl ZeroDivisionError
      else Inr \<lparr>content = py_join '' '' (py_slice words i (i + CHUNK_SIZE cfg)),
                metadata = doc_metadata doc,
                chunk_id = title (doc_metadata doc) @ ''_'' @ str_int (i div CHUNK_SIZE cfg)\<rparr>)"

text \<open>
  The \<open>for i in range(...)\<close> loop over the values of the range, with its \<open>break\<close> once a
  window reaches the end of the words.
\<close>

fun fixed_loop :: "config \<Rightarrow> string list \<Rightarrow> document \<Rightarrow> int list \<Rightarrow> py_error + chunk list" where
  "fixed_loop cfg words doc [] = Inr []"
| "fixed_loop cfg words doc (i # rest) =
     (case fixed_chunk cfg words doc i of
        Inl e \<Rightarrow> Inl e
      | Inr c \<Rightarrow>
          if i + CHUNK_SIZE cfg \<ge> int (length words) then Inr [c]
          else (case fixed_loop cfg words doc rest of
                  Inl e \<Rightarrow> Inl e
                | Inr cs \<Rightarrow> Inr (c # cs)))"

definition fixed_size_chunking :: "config \<Rightarrow> string \<Rightarrow> document \<Rightarrow> py_error + chunk list" where
  "fixed_size_chunking cfg text doc =
     (let words = py_split text; step = CHUNK_SIZE cfg - CHUNK_OVERLAP cfg
      in if step = 0 then Inl ValueError
         else fixed_loop cfg words doc (py_range 0 (int (length words)) step))"

subsection \<open>Sentence-aware chunking\<close>

text \<open>
  \<open>sentences = [s.strip() for s in re.split(r'[.!?]+', content) if s.strip()]\<close>.
\<close>

definition split_sentences :: "string \<Rightarrow> string list" where
  "split_sentences text = filter (\<lambda>s. s \<noteq> []) (map py_strip (re_split_terminal text))"

text \<open>
  \<open>current_chunk[-2:] if len(current_chunk) >= 2 else current_chunk[-1:]\<close>: the sentences
  carried over into the next chunk.
\<close>

definition overlap_sentences :: "'a list \<Rightarrow> 'a list" where
  "overlap_sentences current_chunk =
     (if length current_chunk \<ge> 2 then py_suffix current_chunk (- 2)
      else py_suffix current_chunk (- 1))"

definition sentence_length :: "string \<Rightarrow> int" where
  "sentence_length s = int (length (py_split s))"

definition mk_chunk :: "document \<Rightarrow> string list \<Rightarrow> nat \<Rightarrow> chunk" where
  "mk_chunk doc current_chunk k =
     \<lparr>content = py_join '' '' current_chunk,
      metadata = doc_metadata doc,
      chunk_id = title (doc_metadata doc) @ ''_'' @ str_int (int k)\<rparr>"

text \<open>
  The loop of \<open>_semantic_chunking\<close> over the sentences, on its three variables
  \<open>chunks\<close>, \<open>current_chunk\<close> and \<open>current_length\<close>.
\<close>

fun semantic_loop ::
  "config \<Rightarrow> document \<Rightarrow> string list \<Rightarrow> chunk list \<times> string list \<times> int
     \<Rightarrow> chunk list \<times> string list \<times> int" where
  "semantic_loop cfg doc [] st = st"
| "semantic_loop cfg doc (sentence # rest) (chunks, current_chunk, current_length) =
     (if current_length + sentence_length sentence > CHUNK_SIZE cfg \<and> current_length > 0
      then semantic_loop cfg doc rest
             (chunks @ [mk_chunk doc current_chunk (length chunks)],
              overlap_sentences current_chunk @ [sentence],
              sum_list (map sentence_length (overlap_sentences current_chunk))
                + sentence_length sentence)
      else semantic_loop cfg doc rest
             (chunks, current_chunk @ [sentence], current_length + sentence_length sentence))"

definition semantic_chunking :: "config \<Rightarrow> string \<Rightarrow> document \<Rightarrow> chunk list" where
  "semantic_chunking cfg text doc =
     (case semantic_loop cfg doc (split_sentences text) ([], [], 0) of
        (chunks, current_chunk, current_length) \<Rightarrow>
          if current_chunk \<noteq> [] then chunks @ [mk_chunk doc current_chunk (length chunks)]
          else chunks)"

subsection \<open>Dispatch\<close>

definition chunk_document :: "config \<Rightarrow> document \<Rightarrow> py_error + chunk list" where
  "chunk_document cfg doc =
     (let text = doc_content doc; words = py_split text
      in if int (length words) \<le> CHUNK_SIZE cfg
         then Inr [\<lparr>content = text, metadata = doc_metadata doc,
                    chunk_id = title (doc_metadata doc) @ ''_0''\<rparr>]
         else if SMART_CHUNKING cfg then Inr (semantic_chunking cfg text doc)
         else fixed_size_chunking cfg text doc)"

fun chunk_documents :: "config \<Rightarrow> document list \<Rightarrow> py_error + chunk list" where
  "chunk_documents cfg [] = Inr []"
| "chunk_documents cfg (doc # docs) =
     (case chunk_document cfg doc of
        Inl e \<Rightarrow> Inl e
      | Inr doc_chunks \<Rightarrow>
          (case chunk_documents cfg docs of
             Inl e \<Rightarrow> Inl e
           | Inr chunks \<Rightarrow> Inr (doc_chunks @ chunks)))"

section \<open>DataLoader\<close>

text \<open>
  A file of the storage directory or the corpus: absent, present but not readable in its
  format, or present with a value.
\<close>

datatype 'a file_state = Missing | Unreadable | Stored 'a

text \<open>
  A record of the corpus array. Every key is optional (\<open>None\<close> is an absent key); \<open>year\<close>
  is taken as the text that the f-string prints.
\<close>

record movie =
  m_title :: "string option"
  m_year :: "string option"
  m_extract :: "string option"
  m_genres :: "string list option"

text \<open>\<open>'extract' in movie and movie['extract']\<close>.\<close>

definition has_extract :: "movie \<Rightarrow> bool" where
  "has_extract mv = (case m_extract mv of None \<Rightarrow> False | Some e \<Rightarrow> e \<noteq> [])"

definition dict_get :: "'a option \<Rightarrow> 'a \<Rightarrow> 'a" where
  "dict_get v dflt = (case v of None \<Rightarrow> dflt | Some x \<Rightarrow> x)"

text \<open>The dictionary appended for a movie whose \<open>extract\<close> is the text \<open>e\<close>.\<close>

definition make_document :: "movie \<Rightarrow> string \<Rightarrow> document" where
  "make_document mv e =
     (let y = dict_get (m_year mv) ''Unknown'';
          gs = dict_get (m_genres mv) [];
          t = dict_get (m_title mv) ''Unknown'';
          c0 = ''Movie: '' @ t @ ''. Year: '' @ y @ ''. '';
          c1 = (if gs \<noteq> [] then c0 @ ''Genres: '' @ py_join '', '' gs @ ''. '' else c0);
          c2 = c1 @ ''Plot: '' @ e
      in \<lparr>doc_title = t, doc_year = y, doc_content = c2, doc_genres = gs,
          doc_metadata = \<lparr>year = y, genres = gs, title = t\<rparr>\<rparr>)"

text \<open>The loop over \<open>movies\<close>, appending to \<open>processed_movies\<close>.\<close>

fun preprocess_loop :: "movie list \<Rightarrow> document list \<Rightarrow> document list" where
  "preprocess_loop [] processed_movies = processed_movies"
| "preprocess_loop (mv # rest) processed_movies =
     (case m_extract mv of
        None \<Rightarrow> preprocess_loop rest processed_movies
      | Some e \<Rightarrow>
          if e \<noteq> [] then preprocess_loop rest (processed_movies @ [make_document mv e])
          else preprocess_loop rest processed_movies)"

text \<open>
  \<open>load_and_preprocess\<close> on the state of the data file: only a missing file is caught;
  a file that is not JSON raises.
\<close>

definition load_and_preprocess :: "config \<Rightarrow> movie list file_state \<Rightarrow> py_error + document list" where
  "load_and_preprocess cfg data_file =
     (case data_file of
        Missing \<Rightarrow> Inr []
      | Unreadable \<Rightarrow> Inl JSONDecodeError
      | Stored movies \<Rightarrow> Inr (preprocess_loop (py_prefix movies (MAX_DOCUMENTS cfg)) []))"

section \<open>VectorStore\<close>

text \<open>
  An embedding is a row of floats, taken as reals: no modelled function computes with its
  entries. The flat inner-product index holds its dimension and the rows added to it; its
  size (\<open>ntotal\<close>) is the number of rows.
\<close>

type_synonym vec = "real list"

record faiss_index =
  dimension :: nat
  vectors :: "vec list"

definition ntotal :: "faiss_index \<Rightarrow> nat" where
  "ntotal ix = length (vectors ix)"

definition index_add :: "faiss_index \<Rightarrow> vec list \<Rightarrow> faiss_index" where
  "index_add ix rows = ix\<lparr>vectors := vectors ix @ rows\<rparr>"

text \<open>The dictionary read back from the metadata artifact; a key may be absent.\<close>

record pickled =
  p_chunks :: "chunk list option"
  p_metadata :: "metadata list option"

text \<open>The two artifacts under \<open>VECTOR_DB_PATH\<close>.\<close>

record store_dir =
  index_file :: "faiss_index file_state"
  metadata_file :: "pickled file_state"

text \<open>The fields of a \<open>VectorStore\<close> object that its methods assign.\<close>

record vector_store =
  index :: "faiss_index option"
  chunks :: "chunk list"
  chunk_metadata :: "metadata list"

definition new_vector_store :: vector_store where
  "new_vector_store = \<lparr>index = None, chunks = [], chunk_metadata = []\<rparr>"

text \<open>
  \<open>_save_index\<close>, as \<open>build_index\<close> calls it (the method has no other caller), with
  \<open>self.index\<close> the index \<open>ix\<close> just built: the index artifact is written first, then
  the metadata artifact. Writing succeeds (a full or read-only disk is outside the model).
\<close>

definition save_index :: "faiss_index \<Rightarrow> vector_store \<Rightarrow> store_dir \<Rightarrow> store_dir" where
  "save_index ix vs dir =
     dir\<lparr>index_file := Stored ix,
         metadata_file := Stored \<lparr>p_chunks = Some (chunks vs),
                                  p_metadata = Some (chunk_metadata vs)\<rparr>\<rparr>"

text \<open>
  \<open>build_index\<close>. The embedding model and the in-place normalisation are external:
  \<open>encode\<close> maps the texts to the rows of the embedding matrix and \<open>normalize_L2\<close> maps a
  row to its normalised row. \<open>embeddings.shape[1]\<close> raises when the matrix has no rows.
  The result is the exception raised, if any, and the store and directory it leaves.
\<close>

definition build_index ::
  "(string list \<Rightarrow> vec list) \<Rightarrow> (vec \<Rightarrow> vec) \<Rightarrow> chunk list \<Rightarrow> vector_store \<times> store_dir
     \<Rightarrow> (py_error + unit) \<times> vector_store \<times> store_dir" where
  "build_index encode normalize_L2 chs w =
     (case w of (vs, dir) \<Rightarrow>
        let vs1 = vs\<lparr>chunks := chs, chunk_metadata := map metadata chs\<rparr>;
            texts = map content chs;
            embeddings = encode texts
        in (case embeddings of
             [] \<Rightarrow> (Inl IndexError, vs1, dir)
           | e # _ \<Rightarrow>
               (let ix0 = \<lparr>dimension = length e, vectors = []\<rparr>;
                    ix1 = index_add ix0 (map normalize_L2 embeddings);
                    vs2 = vs1\<lparr>index := Some ix1\<rparr>
                in (Inr (), vs2, save_index ix1 vs2 dir))))"

text \<open>
  \<open>load_index\<close>: each assignment to \<open>self\<close> that ran before an exception stays. The
  result is the returned flag and the store it leaves.
\<close>

definition load_index :: "vector_store \<Rightarrow> store_dir \<Rightarrow> bool \<times> vector_store" where
  "load_index vs dir =
     (if index_file dir \<noteq> Missing \<and> metadata_file dir \<noteq> Missing then
        (case index_file dir of
           Stored ix \<Rightarrow>
             (let vs1 = vs\<lparr>index := Some ix\<rparr>
              in case metadata_file dir of
                   Stored d \<Rightarrow>
                     (case p_chunks d of
                        None \<Rightarrow> (False, vs1)
                      | Some cs \<Rightarrow>
                          (let vs2 = vs1\<lparr>chunks := cs\<rparr>
                           in case p_metadata d of
                                None \<Rightarrow> (False, vs2)
                              | Some ms \<Rightarrow> (True, vs2\<lparr>chunk_metadata := ms\<rparr>)))
                 | _ \<Rightarrow> (False, vs1))
         | _ \<Rightarrow> (False, vs))
      else (False, vs))"

text \<open>
  \<open>search\<close>. The query embedding and the library's search are external:
  \<open>index_search ix query k\<close> is the list \<open>zip(scores[0], indices[0])\<close> that the index
  \<open>ix\<close> answers for the query and \<open>k\<close>, or the exception the library raises.
  The scores are 32-bit floats, taken as the reals they denote; how the array library
  compares such a score with the configured threshold is external too:
  \<open>score_ge score threshold\<close> is the outcome of \<open>score >= threshold\<close>.
\<close>

type_synonym candidate = "real \<times> int"
type_synonym search_result = "chunk \<times> real"

text \<open>The first loop: keep a candidate at or above the threshold, stop at \<open>top_k\<close> results.\<close>

fun threshold_loop ::
  "config \<Rightarrow> (real \<Rightarrow> real \<Rightarrow> bool) \<Rightarrow> chunk list \<Rightarrow> int \<Rightarrow> candidate list
     \<Rightarrow> search_result list \<Rightarrow> py_error + search_result list" where
  "threshold_loop cfg score_ge chs top_k [] results = Inr results"
| "threshold_loop cfg score_ge chs top_k ((score, idx) # rest) results =
     (case (if idx < int (length chs) \<and> score_ge score (SIMILARITY_THRESHOLD cfg)
            then (case py_index chs idx of
                    Inl e \<Rightarrow> Inl e
                  | Inr c \<Rightarrow> Inr (results @ [(c, score)]))
            else Inr results) of
        Inl e \<Rightarrow> Inl e
      | Inr results' \<Rightarrow>
          if int (length results') \<ge> top_k then Inr results'
          else threshold_loop cfg score_ge chs top_k rest results')"

text \<open>The second loop: the candidates at positions below \<open>top_k\<close>, whatever their score.\<close>

fun fallback_loop ::
  "chunk list \<Rightarrow> int \<Rightarrow> nat \<Rightarrow> candidate list \<Rightarrow> search_result list
     \<Rightarrow> py_error + search_result list" where
  "fallback_loop chs top_k i [] results = Inr results"
| "fallback_loop chs top_k i ((score, idx) # rest) results =
     (if idx < int (length chs) \<and> int i < top_k
      then (case py_index chs idx of
              Inl e \<Rightarrow> Inl e
            | Inr c \<Rightarrow> fallback_loop chs top_k (Suc i) rest (results @ [(c, score)]))
      else fallback_loop chs top_k (Suc i) rest results)"

definition search ::
  "config \<Rightarrow> (real \<Rightarrow> real \<Rightarrow> bool)
     \<Rightarrow> (faiss_index \<Rightarrow> string \<Rightarrow> int \<Rightarrow> py_error + candidate list) \<Rightarrow> string
     \<Rightarrow> int option \<Rightarrow> vector_store \<Rightarrow> (py_error + search_result list) \<times> vector_store" where
  "search cfg score_ge index_search query top_k_arg vs =
     (let top_k = (case top_k_arg of None \<Rightarrow> TOP_K cfg | Some k \<Rightarrow> k)
      in case index vs of
           None \<Rightarrow> (Inr [], vs)
         | Some ix \<Rightarrow>
             (let search_k = min (top_k * 3) (int (length (chunks vs)))
              in case index_search ix query search_k of
                   Inl e \<Rightarrow> (Inl e, vs)
                 | Inr cands \<Rightarrow>
                     (case threshold_loop cfg score_ge (chunks vs) top_k cands [] of
                        Inl e \<Rightarrow> (Inl e, vs)
                      | Inr results \<Rightarrow>
                          if results = [] \<and> cands \<noteq> []
                          then (fallback_loop (chunks vs) top_k 0 cands results, vs)
                          else (Inr results, vs))))"

section \<open>MovieRAGSystem\<close>

record response =
  answer :: string
  contexts :: "string list"
  reasoning :: string

text \<open>
  The external collaborators: the embedding model with the library's normalisation and
  search (see \<open>build_index\<close> and \<open>search\<close>), and the keyword templates of
  \<open>_generate_fallback_answer\<close>, whose text depends on the iteration order of a Python set.
\<close>

record collaborators =
  encode :: "string list \<Rightarrow> vec list"
  normalize_L2 :: "vec \<Rightarrow> vec"
  index_search :: "faiss_index \<Rightarrow> string \<Rightarrow> int \<Rightarrow> py_error + candidate list"
  score_ge :: "real \<Rightarrow> real \<Rightarrow> bool"
  generate_fallback_answer :: "string \<Rightarrow> search_result list \<Rightarrow> string"

text \<open>
  The fields of a \<open>MovieRAGSystem\<close> object. \<open>llm\<close> is \<open>None\<close> without an API key; else
  it maps a prompt to the text of the completion, or to the exception of the call.
\<close>

record rag_system =
  vector_store :: vector_store
  initialized :: bool
  llm :: "(string \<Rightarrow> py_error + string) option"

text \<open>
  \<open>initialize\<close>. The result is the returned flag (or the exception), the object and the
  storage directory.
\<close>

definition initialize ::
  "config \<Rightarrow> collaborators \<Rightarrow> movie list file_state \<Rightarrow> rag_system \<times> store_dir
     \<Rightarrow> (py_error + bool) \<times> rag_system \<times> store_dir" where
  "initialize cfg ext data_file w =
     (case w of (rs, dir) \<Rightarrow>
        (case load_index (vector_store rs) dir of
           (True, vs') \<Rightarrow> (Inr True, rs\<lparr>vector_store := vs', initialized := True\<rparr>, dir)
         | (False, vs') \<Rightarrow>
             (let rs1 = rs\<lparr>vector_store := vs'\<rparr>
              in case load_and_preprocess cfg data_file of
                   Inl e \<Rightarrow> (Inl e, rs1, dir)
                 | Inr documents \<Rightarrow>
                     if documents = [] then (Inr False, rs1, dir)
                     else (case chunk_documents cfg documents of
                             Inl e \<Rightarrow> (Inl e, rs1, dir)
                           | Inr chs \<Rightarrow>
                               (case build_index (encode ext) (normalize_L2 ext) chs (vs', dir) of
                                  (Inl e, vs2, dir2) \<Rightarrow>
                                    (Inl e, rs1\<lparr>vector_store := vs2\<rparr>, dir2)
                                | (Inr u, vs2, dir2) \<Rightarrow>
                                    (Inr True,
                                     rs1\<lparr>vector_store := vs2, initialized := True\<rparr>, dir2))))))"

text \<open>\<open>_build_prompt\<close>.\<close>

definition build_prompt :: "string \<Rightarrow> string \<Rightarrow> string" where
  "build_prompt question ctx =
     ''Based on the following movie plot information, answer the question. Be specific and reference the relevant movies.''
     @ [CHR 0x0A, CHR 0x0A] @ ''Movie Plot Context:'' @ [CHR 0x0A] @ ctx
     @ [CHR 0x0A, CHR 0x0A] @ ''Question: '' @ question @ [CHR 0x0A, CHR 0x0A]
     @ ''Please provide a concise answer that directly addresses the question. If the context contains relevant information, reference specific movie titles and plot points.''
     @ [CHR 0x0A, CHR 0x0A] @ ''Answer:''"

text \<open>\<open>_generate_reasoning\<close>: the titles of the first three results, without repetition.\<close>

fun top_movies_loop :: "search_result list \<Rightarrow> string list \<Rightarrow> string list" where
  "top_movies_loop [] top_movies = top_movies"
| "top_movies_loop ((c, score) # rest) top_movies =
     (if title (metadata c) \<notin> set top_movies
      then top_movies_loop rest (top_movies @ [title (metadata c)])
      else top_movies_loop rest top_movies)"

definition generate_reasoning :: "string \<Rightarrow> search_result list \<Rightarrow> string" where
  "generate_reasoning question retrieved_chunks =
     (let top_movies = top_movies_loop (py_prefix retrieved_chunks 3) []
      in if top_movies = [] then ''No relevant movie plot information was found for the query.''
         else py_join '' ''
                [''The question was about '' @ [CHR 0x27] @ question @ [CHR 0x27] @ ''.'',
                 ''I searched through movie plots and found relevant information from ''
                   @ str_int (int (length retrieved_chunks)) @ '' chunks.'',
                 ''The most relevant movies were: '' @ py_join '', '' top_movies @ ''.'',
                 ''I used these plot details to form a comprehensive answer.''])"

definition init_failure_response :: response where
  "init_failure_response =
     \<lparr>answer = ''System initialization failed. Please check your data file.'',
      contexts = [],
      reasoning = ''Initialization error''\<rparr>"

definition no_context_response :: response where
  "no_context_response =
     \<lparr>answer = ''I couldn'' @ [CHR 0x27]
                @ ''t find relevant information about this topic in the movie plots database.'',
      contexts = [],
      reasoning = ''No relevant movie plot information was found for the query.''\<rparr>"

text \<open>The part of \<open>query\<close> after the initialization check.\<close>

definition answer_query ::
  "config \<Rightarrow> collaborators \<Rightarrow> string \<Rightarrow> rag_system \<times> store_dir
     \<Rightarrow> (py_error + response) \<times> rag_system \<times> store_dir" where
  "answer_query cfg ext question w =
     (case w of (rs, dir) \<Rightarrow>
        (case search cfg (score_ge ext) (index_search ext) question (Some 5) (vector_store rs) of
           (Inl e, vs') \<Rightarrow> (Inl e, rs\<lparr>vector_store := vs'\<rparr>, dir)
         | (Inr retrieved_chunks, vs') \<Rightarrow>
             (let rs' = rs\<lparr>vector_store := vs'\<rparr>
              in if retrieved_chunks = [] then (Inr no_context_response, rs', dir)
                 else
                   (let ctxs = map (\<lambda>(c, score). content c) retrieved_chunks;
                        context_text = py_join [CHR 0x0A, CHR 0x0A] ctxs;
                        prompt = build_prompt question context_text;
                        ans = (case llm rs of
                                 Some generate_content \<Rightarrow>
                                   (case generate_content prompt of
                                      Inr txt \<Rightarrow> py_strip txt
                                    | Inl e \<Rightarrow>
                                        generate_fallback_answer ext question retrieved_chunks)
                               | None \<Rightarrow> generate_fallback_answer ext question retrieved_chunks)
                    in (Inr \<lparr>answer = ans, contexts = ctxs,
                             reasoning = generate_reasoning question retrieved_chunks\<rparr>,
                        rs', dir)))))"

text \<open>\<open>query\<close>: initialization on first use, then retrieval and the answer.\<close>

definition query ::
  "config \<Rightarrow> collaborators \<Rightarrow> movie list file_state \<Rightarrow> string \<Rightarrow> rag_system \<times> store_dir
     \<Rightarrow> (py_error + response) \<times> rag_system \<times> store_dir" where
  "query cfg ext data_file question w =
     (if \<not> initialized (fst w) then
        (case initialize cfg ext data_file w of
           (Inl e, w') \<Rightarrow> (Inl e, w')
         | (Inr success, w') \<Rightarrow>
             if \<not> success then (Inr init_failure_response, w')
             else answer_query cfg ext question w')
      else answer_query cfg ext question w)"

section \<open>Notions used to state the properties\<close>

text \<open>The document that preprocessing builds for a movie that has an \<open>extract\<close>.\<close>

definition document_of :: "movie \<Rightarrow> document" where
  "document_of mv = make_document mv (the (m_extract mv))"

text \<open>
  The sizes that the specification's invariant compares: the stored chunks, the rows held
  by the index (the stored embeddings) and the size the index reports.
\<close>

definition sizes_agree :: "vector_store \<Rightarrow> bool" where
  "sizes_agree vs =
     (case index vs of
        None \<Rightarrow> False
      | Some ix \<Rightarrow> length (chunks vs) = length (vectors ix) \<and> length (vectors ix) = ntotal ix)"

text \<open>
  The two artifacts fit together: when both can be read and the metadata has its chunks,
  there are as many chunks as the index has rows.
\<close>

definition artifacts_agree :: "store_dir \<Rightarrow> bool" where
  "artifacts_agree dir =
     (case (index_file dir, metadata_file dir) of
        (Stored ix, Stored d) \<Rightarrow>
          (case p_chunks d of None \<Rightarrow> True | Some cs \<Rightarrow> length cs = ntotal ix)
      | _ \<Rightarrow> True)"

text \<open>The \<open>top_k\<close> that \<open>search\<close> works with, and the number of candidates it asks for.\<close>

definition requested_top_k :: "config \<Rightarrow> int option \<Rightarrow> int" where
  "requested_top_k cfg top_k_arg = (case top_k_arg of None \<Rightarrow> TOP_K cfg | Some k \<Rightarrow> k)"

definition search_k_of :: "config \<Rightarrow> int option \<Rightarrow> vector_store \<Rightarrow> int" where
  "search_k_of cfg top_k_arg vs = min (requested_top_k cfg top_k_arg * 3) (int (length (chunks vs)))"

text \<open>
  The element that \<open>xs[i]\<close> reads for an index in range (a negative index counts from the
  end), and the result built from a candidate, whatever its score.
\<close>

definition py_nth :: "'a list \<Rightarrow> int \<Rightarrow> 'a" where
  "py_nth xs i = xs ! nat (if i < 0 then int (length xs) + i else i)"

definition raw_result :: "chunk list \<Rightarrow> candidate \<Rightarrow> search_result" where
  "raw_result chs cand = (py_nth chs (snd cand), fst cand)"

text \<open>
  What the flat index of the search library answers to a request for \<open>k\<close> neighbours: it
  refuses a \<open>k\<close> below one with an assertion; else it answers \<open>k\<close> candidates, positions
  of its own rows first and, once its rows are used up, the position -1.
\<close>

definition flat_index_answer :: "faiss_index \<Rightarrow> int \<Rightarrow> py_error + candidate list \<Rightarrow> bool" where
  "flat_index_answer ix k r =
     (case r of
        Inl e \<Rightarrow> k \<le> 0 \<and> e = AssertionError
      | Inr cands \<Rightarrow>
          1 \<le> k \<and> length cands = nat k
          \<and> list_all (\<lambda>cand. 0 \<le> snd cand \<and> snd cand < int (ntotal ix)) (take (ntotal ix) cands)
          \<and> list_all (\<lambda>cand. snd cand = - 1) (drop (ntotal ix) cands))"

text \<open>Candidates whose positions \<open>search\<close> can read in the chunk list.\<close>

definition readable_candidates :: "chunk list \<Rightarrow> candidate list \<Rightarrow> bool" where
  "readable_candidates chs cands =
     list_all (\<lambda>cand. - int (length chs) \<le> snd cand \<and> snd cand < int (length chs)) cands"

text \<open>Every candidate fails the comparison with the threshold.\<close>

definition below_threshold :: "config \<Rightarrow> (real \<Rightarrow> real \<Rightarrow> bool) \<Rightarrow> candidate list \<Rightarrow> bool" where
  "below_threshold cfg sge cands =
     list_all (\<lambda>cand. \<not> sge (fst cand) (SIMILARITY_THRESHOLD cfg)) cands"

text \<open>
  The sentences of the chunks that \<open>_semantic_chunking\<close> emits: its loop again, with
  \<open>current_chunk\<close> kept as a list where the source appends the joined text. The
  sentence-aware chunks are these groups, joined and numbered (\<open>semantic_chunking_groups\<close>).
\<close>

fun groups_loop ::
  "config \<Rightarrow> string list \<Rightarrow> string list list \<times> string list \<times> int
     \<Rightarrow> string list list \<times> string list \<times> int" where
  "groups_loop cfg [] st = st"
| "groups_loop cfg (sentence # rest) (groups, current_chunk, current_length) =
     (if current_length + sentence_length sentence > CHUNK_SIZE cfg \<and> current_length > 0
      then groups_loop cfg rest
             (groups @ [current_chunk],
              overlap_sentences current_chunk @ [sentence],
              sum_list (map sentence_length (overlap_sentences current_chunk))
                + sentence_length sentence)
      else groups_loop cfg rest
             (groups, current_chunk @ [sentence], current_length + sentence_length sentence))"

definition sentence_groups :: "config \<Rightarrow> string list \<Rightarrow> string list list" where
  "sentence_groups cfg sentences =
     (case groups_loop cfg sentences ([], [], 0) of
        (groups, current_chunk, current_length) \<Rightarrow>
          if current_chunk \<noteq> [] then groups @ [current_chunk] else groups)"

text \<open>
  De-duplication of the overlap: the first group whole, and of every later group the
  sentences after those carried over from the group before it.
\<close>

fun fresh_sentences :: "'a list \<Rightarrow> 'a list list \<Rightarrow> 'a list" where
  "fresh_sentences prev [] = []"
| "fresh_sentences prev (g # gs) =
     drop (length (overlap_sentences prev)) g @ fresh_sentences g gs"

fun dedup_overlap :: "'a list list \<Rightarrow> 'a list" where
  "dedup_overlap [] = []"
| "dedup_overlap (g # gs) = g @ fresh_sentences g gs"

text \<open>
  Every later group starts with the sentences carried over from the group before it and
  adds at least one sentence.
\<close>

fun carries_overlap :: "'a list \<Rightarrow> 'a list list \<Rightarrow> bool" where
  "carries_overlap prev [] = True"
| "carries_overlap prev (g # gs) =
     (take (length (overlap_sentences prev)) g = overlap_sentences prev
      \<and> length (overlap_sentences prev) < length g \<and> carries_overlap g gs)"

fun consecutive_overlap :: "'a list list \<Rightarrow> bool" where
  "consecutive_overlap [] = True"
| "consecutive_overlap (g # gs) = carries_overlap g gs"

text \<open>The chunks of a list of groups: each group joined, numbered from zero.\<close>

definition numbered_chunks :: "document \<Rightarrow> string list list \<Rightarrow> chunk list" where
  "numbered_chunks doc groups = map (\<lambda>(k, g). mk_chunk doc g k) (enumerate 0 groups)"

text \<open>
  The invariant of that loop once it has gone through the sentences \<open>processed\<close>, used
  in the proofs about the sentence-aware strategy.
\<close>

definition loop_inv :: "string list \<Rightarrow> string list list \<times> string list \<times> int \<Rightarrow> bool" where
  "loop_inv processed st =
     (case st of (gs, cur, len) \<Rightarrow>
        len = sum_list (map sentence_length cur)
        \<and> suffix cur processed
        \<and> list_all (\<lambda>g. g \<noteq> [] \<and> sublist g processed) gs
        \<and> consecutive_overlap gs
        \<and> (if gs = [] then cur = processed
            else \<exists>new. new \<noteq> [] \<and> cur = overlap_sentences (last gs) @ new
                   \<and> dedup_overlap gs @ new = processed))"

text \<open>A word as \<open>split\<close> returns it: not empty and free of whitespace.\<close>

definition is_word :: "string \<Rightarrow> bool" where
  "is_word w = (w \<noteq> [] \<and> list_all (\<lambda>c. \<not> isspace c) w)"

section \<open>Example inputs\<close>

text \<open>The record of the specification's end-to-end example, and two records without a plot.\<close>

definition robowar :: movie where
  "robowar = \<lparr>m_title = Some ''RoboWar'', m_year = Some ''1999'',
              m_extract = Some ''A robot fights crime.'', m_genres = Some [''Sci-Fi'']\<rparr>"

definition no_plot :: movie where
  "no_plot = \<lparr>m_title = Some ''Lost Reel'', m_year = None, m_extract = None, m_genres = None\<rparr>"

definition empty_plot :: movie where
  "empty_plot = \<lparr>m_title = Some ''Blank'', m_year = Some ''2001'', m_extract = Some [],
                 m_genres = Some []\<rparr>"

definition robowar_doc :: document where
  "robowar_doc = make_document robowar ''A robot fights crime.''"

text \<open>The default configuration with a window of four words, for inputs of a few words.\<close>

definition small_fixed_config :: config where
  "small_fixed_config =
     default_config\<lparr>CHUNK_SIZE := 4, CHUNK_OVERLAP := 1, SMART_CHUNKING := False\<rparr>"

definition small_smart_config :: config where
  "small_smart_config = default_config\<lparr>CHUNK_SIZE := 4, CHUNK_OVERLAP := 1\<rparr>"

text \<open>The chunk of the RoboWar document, stores and storage directories around it.\<close>

definition robowar_chunk :: chunk where
  "robowar_chunk = \<lparr>content = doc_content robowar_doc, metadata = doc_metadata robowar_doc,
                     chunk_id = ''RoboWar_0''\<rparr>"

definition empty_dir :: store_dir where
  "empty_dir = \<lparr>index_file = Missing, metadata_file = Missing\<rparr>"

definition two_row_index :: faiss_index where
  "two_row_index = \<lparr>dimension = 2, vectors = [[1, 0], [0, 1]]\<rparr>"

definition one_chunk_pickle :: pickled where
  "one_chunk_pickle = \<lparr>p_chunks = Some [robowar_chunk], p_metadata = Some [metadata robowar_chunk]\<rparr>"

definition mismatched_dir :: store_dir where
  "mismatched_dir = \<lparr>index_file = Stored two_row_index, metadata_file = Stored one_chunk_pickle\<rparr>"

definition corrupt_index_dir :: store_dir where
  "corrupt_index_dir = \<lparr>index_file = Unreadable, metadata_file = Stored one_chunk_pickle\<rparr>"

definition corrupt_metadata_dir :: store_dir where
  "corrupt_metadata_dir = \<lparr>index_file = Stored two_row_index, metadata_file = Unreadable\<rparr>"

text \<open>
  Collaborators for the examples: an embedding model that maps every text to the same unit
  row; comparison of the scores as reals; and two searches that answer as the flat index
  does, one ranking the rows in their order with score 0.1, the other ranking them in
  reverse order with score 0.9.
\<close>

definition unit_encode :: "string list \<Rightarrow> vec list" where
  "unit_encode texts = map (\<lambda>t. [1, 0]) texts"

definition real_ge :: "real \<Rightarrow> real \<Rightarrow> bool" where
  "real_ge score threshold = (threshold \<le> score)"

definition no_neighbour :: candidate where
  "no_neighbour = (- 340282346638528859811704183484516925440, - 1)"

definition first_rows :: "faiss_index \<Rightarrow> string \<Rightarrow> int \<Rightarrow> py_error + candidate list" where
  "first_rows ix q k =
     (if k \<le> 0 then Inl AssertionError
      else Inr (map (\<lambda>i. (1 / 10, int i)) [0..<min (nat k) (ntotal ix)]
                @ replicate (nat k - ntotal ix) no_neighbour))"

definition last_rows :: "faiss_index \<Rightarrow> string \<Rightarrow> int \<Rightarrow> py_error + candidate list" where
  "last_rows ix q k =
     (if k \<le> 0 then Inl AssertionError
      else Inr (map (\<lambda>i. (9 / 10, int i)) (take (nat k) (rev [0..<ntotal ix]))
                @ replicate (nat k - ntotal ix) no_neighbour))"

definition example_ext :: collaborators where
  "example_ext = \<lparr>encode = unit_encode, normalize_L2 = id, index_search = first_rows,
                   score_ge = real_ge,
                   generate_fallback_answer = (\<lambda>q rs. ''fallback'')\<rparr>"

definition new_rag_system :: rag_system where
  "new_rag_system = \<lparr>vector_store = new_vector_store, initialized = False, llm = None\<rparr>"

definition one_row_index :: faiss_index where
  "one_row_index = \<lparr>dimension = 2, vectors = [[1, 0]]\<rparr>"

text \<open>The store that \<open>load_index\<close> leaves from the directory whose artifacts disagree.\<close>

definition mismatched_store :: vector_store where
  "mismatched_store = \<lparr>index = Some two_row_index, chunks = [robowar_chunk],
                        chunk_metadata = [metadata robowar_chunk]\<rparr>"

definition robowar_store :: vector_store where
  "robowar_store = \<lparr>index = Some one_row_index, chunks = [robowar_chunk],
                     chunk_metadata = [metadata robowar_chunk]\<rparr>"

text \<open>A document of a single sentence of eight words.\<close>

definition long_sentence_doc :: document where
  "long_sentence_doc =
     \<lparr>doc_title = ''RoboWar'', doc_year = ''1999'',
      doc_content = ''A lone robot fights crime in the city.'', doc_genres = [],
      doc_metadata = \<lparr>year = ''1999'', genres = [], title = ''RoboWar''\<rparr>\<rparr>"

section \<open>Chunk identifiers\<close>

text \<open>
  Claim C1. With unique titles, every chunk's \<open>chunk_id\<close> should be the title followed by
  the chunk's sequential index within its document, and no two chunks should share a
  \<open>chunk_id\<close>. The fixed-size strategy numbers a chunk by \<open>i // CHUNK_SIZE\<close>, the window
  start divided by the window size and not by the stride: on the eleven words of the
  RoboWar document, with windows of four words overlapping by one, the four chunks emitted
  are numbered 0, 0, 1, 2, so the first two share the identifier \<open>RoboWar_0\<close>.
\<close>

theorem fixed_size_chunk_id_collision:
  "map_sum id (map chunk_id) (chunk_documents small_fixed_config [robowar_doc])
     = Inr [''RoboWar_0'', ''RoboWar_0'', ''RoboWar_1'', ''RoboWar_2'']"
  by code_simp

section \<open>Preprocessing\<close>

lemma preprocess_loop_acc:
  "preprocess_loop movies acc = acc @ map document_of (filter has_extract movies)"
  by (induction movies arbitrary: acc)
     (auto simp: has_extract_def document_of_def split: option.splits)

lemma py_prefix_take: "0 \<le> n \<Longrightarrow> py_prefix xs n = take (nat n) xs"
  by (simp add: py_prefix_def py_clamp_def min_def)

text \<open>
  Claim C7. Preprocessing keeps, of the records that the slice \<open>movies[:MAX_DOCUMENTS]\<close>
  retains, exactly those with a non-empty \<open>extract\<close>, each as its document and in the
  order of the input; for a non-negative \<open>MAX_DOCUMENTS\<close> the slice is the first
  \<open>MAX_DOCUMENTS\<close> records.
\<close>

theorem load_and_preprocess_filter:
  "load_and_preprocess cfg (Stored movies)
     = Inr (map document_of (filter has_extract (py_prefix movies (MAX_DOCUMENTS cfg))))
   \<and> (0 \<le> MAX_DOCUMENTS cfg \<longrightarrow>
        py_prefix movies (MAX_DOCUMENTS cfg) = take (nat (MAX_DOCUMENTS cfg)) movies)"
  by (simp add: load_and_preprocess_def preprocess_loop_acc py_prefix_take)

theorem load_and_preprocess_filter_witness:
  "load_and_preprocess (default_config\<lparr>MAX_DOCUMENTS := 3\<rparr>)
       (Stored [no_plot, robowar, empty_plot, robowar])
     = Inr [robowar_doc]
   \<and> py_prefix [no_plot, robowar, empty_plot, robowar] 3 = [no_plot, robowar, empty_plot]"
  using load_and_preprocess_filter
          [of "default_config\<lparr>MAX_DOCUMENTS := 3\<rparr>" "[no_plot, robowar, empty_plot, robowar]"]
  by (simp add: default_config_def has_extract_def no_plot_def robowar_def empty_plot_def
        document_of_def robowar_doc_def)

section \<open>Loading the index\<close>

lemma load_index_missing:
  "index_file dir = Missing \<or> metadata_file dir = Missing \<Longrightarrow> load_index vs dir = (False, vs)"
  by (auto simp: load_index_def)

text \<open>
  Claim C9, as stated, fails in its last part: \<open>load_index\<close> also returns false with the
  store unchanged when both artifacts exist and the index artifact itself cannot be read,
  since \<open>faiss.read_index\<close> raises before anything is assigned.
\<close>

theorem load_index_unchanged_counterexample:
  "\<not> (\<forall>vs dir. load_index vs dir = (False, vs) \<longrightarrow>
         index_file dir = Missing \<or> metadata_file dir = Missing)"
proof
  assume "\<forall>vs dir. load_index vs dir = (False, vs) \<longrightarrow>
            index_file dir = Missing \<or> metadata_file dir = Missing"
  then have "load_index new_vector_store corrupt_index_dir = (False, new_vector_store) \<longrightarrow>
               index_file corrupt_index_dir = Missing \<or> metadata_file corrupt_index_dir = Missing"
    by blast
  then show False
    by (simp add: load_index_def corrupt_index_dir_def)
qed

lemma index_update_same: "(vs\<lparr>index := x\<rparr> = vs) = (index vs = x)"
  by (cases vs) auto

lemma index_chunks_update_same:
  "(vs\<lparr>index := x, chunks := cs\<rparr> = vs) = (index vs = x \<and> chunks vs = cs)"
  by (cases vs) auto

text \<open>
  Claim C9, amended. When the index artifact is read and the metadata artifact fails to
  deserialize, \<open>load_index\<close> returns false with \<open>index\<close> overwritten by the index read
  and with \<open>chunks\<close> and \<open>chunk_metadata\<close> as before. It returns false with the store
  unchanged only when an artifact is missing, or the index artifact cannot be read, or the
  index read is the one the store already holds and the metadata fails before it changes a
  field; and in each of these cases it does. For a store that holds no index, that is
  exactly when an artifact is missing or the index artifact cannot be read.
\<close>

theorem load_index_failure_states:
  "(index_file dir = Stored ix \<and> metadata_file dir = Unreadable \<longrightarrow>
      load_index vs dir = (False, vs\<lparr>index := Some ix\<rparr>)
      \<and> chunks (snd (load_index vs dir)) = chunks vs
      \<and> chunk_metadata (snd (load_index vs dir)) = chunk_metadata vs)
   \<and> (load_index vs dir = (False, vs)) =
       (index_file dir = Missing \<or> metadata_file dir = Missing \<or> index_file dir = Unreadable
        \<or> (index_file dir = Stored (the (index vs)) \<and> index vs \<noteq> None
            \<and> (case metadata_file dir of
                  Stored d \<Rightarrow> (case p_chunks d of
                                 None \<Rightarrow> True
                               | Some cs \<Rightarrow> cs = chunks vs \<and> p_metadata d = None)
                | _ \<Rightarrow> True)))
   \<and> (index vs = None \<longrightarrow>
        (load_index vs dir = (False, vs)) =
        (index_file dir = Missing \<or> metadata_file dir = Missing \<or> index_file dir = Unreadable))"
  by (cases "index_file dir"; cases "metadata_file dir")
     (auto simp: load_index_def Let_def index_update_same index_chunks_update_same
           split: option.splits)

theorem load_index_failure_states_witness:
  "load_index new_vector_store corrupt_metadata_dir
     = (False, new_vector_store\<lparr>index := Some two_row_index\<rparr>)
   \<and> new_vector_store\<lparr>index := Some two_row_index\<rparr> \<noteq> new_vector_store
   \<and> load_index new_vector_store corrupt_index_dir = (False, new_vector_store)
   \<and> load_index new_vector_store empty_dir = (False, new_vector_store)
   \<and> load_index mismatched_store corrupt_metadata_dir = (False, mismatched_store)"
proof -
  have a: "index_file corrupt_metadata_dir = Stored two_row_index
             \<and> metadata_file corrupt_metadata_dir = Unreadable"
    by (simp add: corrupt_metadata_dir_def)
  have n: "index new_vector_store = None" by (simp add: new_vector_store_def)
  have b: "index_file corrupt_index_dir = Unreadable" by (simp add: corrupt_index_dir_def)
  have c: "index_file empty_dir = Missing" by (simp add: empty_dir_def)
  have d: "index_file corrupt_metadata_dir = Stored (the (index mismatched_store))
             \<and> index mismatched_store \<noteq> None"
    by (simp add: corrupt_metadata_dir_def mismatched_store_def)
  from load_index_failure_states [of corrupt_metadata_dir two_row_index new_vector_store] a
  have w1: "load_index new_vector_store corrupt_metadata_dir
              = (False, new_vector_store\<lparr>index := Some two_row_index\<rparr>)"
    by blast
  have w2: "new_vector_store\<lparr>index := Some two_row_index\<rparr> \<noteq> new_vector_store"
    by (simp add: index_update_same n)
  from load_index_failure_states [of corrupt_index_dir two_row_index new_vector_store] n b
  have w3: "load_index new_vector_store corrupt_index_dir = (False, new_vector_store)"
    by blast
  from load_index_failure_states [of empty_dir two_row_index new_vector_store] n c
  have w4: "load_index new_vector_store empty_dir = (False, new_vector_store)"
    by blast
  have e: "mismatched_store\<lparr>index := Some two_row_index\<rparr> = mismatched_store"
    by (simp add: mismatched_store_def)
  from load_index_failure_states [of corrupt_metadata_dir two_row_index mismatched_store] a
  have w5: "load_index mismatched_store corrupt_metadata_dir = (False, mismatched_store)"
    unfolding e by blast
  from w1 w2 w3 w4 w5 show ?thesis by (intro conjI)
qed

section \<open>Initialization on an empty corpus\<close>

text \<open>
  Claim C8. With the data file holding an empty array and an artifact of the index
  missing, \<open>initialize\<close> returns false, and \<open>query\<close> on a system not yet initialized
  returns the initialization-failure response, with no context, and raises nothing.
\<close>

theorem empty_corpus_fails_initialization:
  assumes "index_file dir = Missing \<or> metadata_file dir = Missing"
  shows "initialize cfg ext (Stored []) (rs, dir) = (Inr False, rs, dir)
         \<and> (\<not> initialized rs \<longrightarrow>
              query cfg ext (Stored []) question (rs, dir) = (Inr init_failure_response, rs, dir))
         \<and> contexts init_failure_response = []"
proof -
  have li: "load_index (vector_store rs) dir = (False, vector_store rs)"
    using assms by (rule load_index_missing)
  have lp: "load_and_preprocess cfg (Stored []) = Inr []"
    by (simp add: load_and_preprocess_def py_prefix_def)
  have ini: "initialize cfg ext (Stored []) (rs, dir) = (Inr False, rs, dir)"
    by (simp add: initialize_def li lp)
  show ?thesis
    by (simp add: ini query_def init_failure_response_def)
qed

theorem empty_corpus_fails_initialization_witness:
  "initialize default_config example_ext (Stored []) (new_rag_system, empty_dir)
     = (Inr False, new_rag_system, empty_dir)
   \<and> query default_config example_ext (Stored []) ''robot movies'' (new_rag_system, empty_dir)
     = (Inr init_failure_response, new_rag_system, empty_dir)
   \<and> contexts init_failure_response = []"
  using empty_corpus_fails_initialization
          [of empty_dir default_config example_ext new_rag_system "''robot movies''"]
  by (simp add: empty_dir_def new_rag_system_def)

section \<open>The sizes of chunks and index\<close>

text \<open>
  Claim C6, as stated, fails for \<open>load_index\<close>: it compares nothing, so from an index
  artifact of two rows and a metadata artifact of one chunk it succeeds and leaves one
  chunk beside an index of size two.
\<close>

theorem load_index_sizes_counterexample:
  "fst (load_index new_vector_store mismatched_dir) \<and> \<not> sizes_agree (snd (load_index new_vector_store mismatched_dir))"
  by (simp add: load_index_def mismatched_dir_def new_vector_store_def sizes_agree_def
        one_chunk_pickle_def two_row_index_def ntotal_def)

lemma build_index_success:
  assumes "build_index enc nrm chs (vs, dir) = (Inr u, vs', dir')"
    and "length (enc (map content chs)) = length chs"
  shows "sizes_agree vs' \<and> artifacts_agree dir' \<and> chunks vs' = chs
         \<and> index_file dir' = Stored (the (index vs'))
         \<and> metadata_file dir' = Stored \<lparr>p_chunks = Some chs, p_metadata = Some (map metadata chs)\<rparr>"
  using assms
  by (auto simp: build_index_def Let_def save_index_def sizes_agree_def artifacts_agree_def
        index_add_def ntotal_def split: list.splits)

lemma load_index_success:
  assumes "load_index vs dir = (True, vs')" and "artifacts_agree dir"
  shows "sizes_agree vs'"
  using assms
  by (auto simp: load_index_def Let_def sizes_agree_def artifacts_agree_def ntotal_def
        split: if_splits file_state.splits option.splits)

lemma search_keeps_store: "snd (search cfg sge isearch q k vs) = vs"
  by (simp add: search_def Let_def split: option.splits sum.splits)

text \<open>
  Claim C6, amended. After a successful \<open>build_index\<close> (the embedding model answering
  one row per text) the chunks, the rows of the index and the size of the index agree in
  number, the artifacts written fit together, and loading them into any store succeeds
  with the same agreement. After a successful \<open>load_index\<close> from artifacts that fit
  together the numbers agree. \<open>search\<close> leaves the store as it is.
\<close>

theorem sizes_agree_after_build_or_load:
  "(build_index enc nrm chs (vs, dir) = (Inr u, vs', dir')
      \<and> length (enc (map content chs)) = length chs \<longrightarrow>
        sizes_agree vs' \<and> artifacts_agree dir'
        \<and> fst (load_index vsr dir') \<and> sizes_agree (snd (load_index vsr dir')))
   \<and> (load_index vsa dira = (True, vsb) \<and> artifacts_agree dira \<longrightarrow> sizes_agree vsb)
   \<and> snd (search cfg sge isearch q k vsc) = vsc"
proof (intro conjI impI)
  assume a: "build_index enc nrm chs (vs, dir) = (Inr u, vs', dir')
      \<and> length (enc (map content chs)) = length chs"
  then have b: "sizes_agree vs' \<and> artifacts_agree dir' \<and> chunks vs' = chs
         \<and> index_file dir' = Stored (the (index vs'))
         \<and> metadata_file dir' = Stored \<lparr>p_chunks = Some chs, p_metadata = Some (map metadata chs)\<rparr>"
    using build_index_success by blast
  then show "sizes_agree vs'" "artifacts_agree dir'" by simp_all
  from b show l: "fst (load_index vsr dir')" by (simp add: load_index_def)
  obtain ok vsd where e: "load_index vsr dir' = (ok, vsd)" by (cases "load_index vsr dir'")
  with l have "load_index vsr dir' = (True, vsd)" by simp
  with b have "sizes_agree vsd" using load_index_success by blast
  with e show "sizes_agree (snd (load_index vsr dir'))" by simp
next
  assume "load_index vsa dira = (True, vsb) \<and> artifacts_agree dira"
  then show "sizes_agree vsb" using load_index_success by blast
next
  show "snd (search cfg sge isearch q k vsc) = vsc" by (rule search_keeps_store)
qed

theorem sizes_agree_after_build_or_load_witness:
  "build_index unit_encode id [robowar_chunk] (new_vector_store, empty_dir)
      = (Inr (), robowar_store, \<lparr>index_file = Stored one_row_index, metadata_file = Stored one_chunk_pickle\<rparr>)
   \<and> sizes_agree robowar_store
   \<and> load_index new_vector_store \<lparr>index_file = Stored one_row_index, metadata_file = Stored one_chunk_pickle\<rparr>
        = (True, robowar_store)
   \<and> snd (search default_config real_ge first_rows ''robot movies'' None robowar_store)
       = robowar_store"
proof -
  let ?dir = "\<lparr>index_file = Stored one_row_index, metadata_file = Stored one_chunk_pickle\<rparr>"
  have b: "build_index unit_encode id [robowar_chunk] (new_vector_store, empty_dir)
      = (Inr (), robowar_store, ?dir)"
    by (simp add: build_index_def unit_encode_def new_vector_store_def empty_dir_def save_index_def
          index_add_def Let_def robowar_store_def one_row_index_def one_chunk_pickle_def)
  have e: "length (unit_encode (map content [robowar_chunk])) = length [robowar_chunk]"
    by (simp add: unit_encode_def)
  have l: "load_index new_vector_store ?dir = (True, robowar_store)"
    by (simp add: load_index_def new_vector_store_def robowar_store_def one_chunk_pickle_def)
  have a: "artifacts_agree ?dir"
    by (simp add: artifacts_agree_def one_chunk_pickle_def ntotal_def one_row_index_def)
  from sizes_agree_after_build_or_load
         [where enc = unit_encode and nrm = id and chs = "[robowar_chunk]"
            and vs = new_vector_store and dir = empty_dir and vs' = robowar_store
            and dir' = ?dir and vsr = new_vector_store and vsa = new_vector_store
            and dira = ?dir and vsb = robowar_store and cfg = default_config
            and sge = real_ge and isearch = first_rows and q = "''robot movies''" and k = None
            and vsc = robowar_store]
       b e l a
  show ?thesis by simp
qed

section \<open>Search\<close>

text \<open>
  Claim C2, as stated, fails in two ways. A store loaded from artifacts that disagree holds
  an index of two rows beside one chunk; asked for the five best matches of a query whose
  nearest row is the second, \<open>search\<close> gets the position 1, which is no position of the
  chunk list, and returns the empty list though the index is built and the chunk list is
  not empty. And for a \<open>top_k\<close> of zero the library is asked for no neighbour at all and
  its assertion leaves \<open>search\<close>, so that nothing is returned.
\<close>

theorem search_empty_counterexample:
  "load_index new_vector_store mismatched_dir = (True, mismatched_store)
   \<and> index mismatched_store \<noteq> None \<and> chunks mismatched_store \<noteq> []
   \<and> flat_index_answer two_row_index 1 (last_rows two_row_index ''robot movies'' 1)
   \<and> search default_config real_ge last_rows ''robot movies'' (Some 5) mismatched_store
       = (Inr [], mismatched_store)
   \<and> flat_index_answer one_row_index 0 (first_rows one_row_index ''robot movies'' 0)
   \<and> search default_config real_ge first_rows ''robot movies'' (Some 0) robowar_store
       = (Inl AssertionError, robowar_store)"
proof (intro conjI)
  show "load_index new_vector_store mismatched_dir = (True, mismatched_store)"
    by (simp add: load_index_def mismatched_dir_def new_vector_store_def mismatched_store_def
          one_chunk_pickle_def)
  show "index mismatched_store \<noteq> None" "chunks mismatched_store \<noteq> []"
    by (simp_all add: mismatched_store_def)
  have l: "last_rows two_row_index ''robot movies'' 1 = Inr [(9 / 10, 1)]"
    by (simp add: last_rows_def ntotal_def two_row_index_def)
  show "flat_index_answer two_row_index 1 (last_rows two_row_index ''robot movies'' 1)"
    unfolding l by (simp add: flat_index_answer_def ntotal_def two_row_index_def)
  show "search default_config real_ge last_rows ''robot movies'' (Some 5) mismatched_store
          = (Inr [], mismatched_store)"
    by (simp add: search_def mismatched_store_def l)
  show "flat_index_answer one_row_index 0 (first_rows one_row_index ''robot movies'' 0)"
    by (simp add: flat_index_answer_def first_rows_def)
  show "search default_config real_ge first_rows ''robot movies'' (Some 0) robowar_store
          = (Inl AssertionError, robowar_store)"
    by (simp add: search_def first_rows_def robowar_store_def)
qed

lemma search_unbuilt:
  "index vs = None \<Longrightarrow> search cfg sge isearch q top_k_arg vs = (Inr [], vs)"
  by (simp add: search_def)

lemma py_index_readable:
  "- int (length xs) \<le> i \<Longrightarrow> i < int (length xs) \<Longrightarrow> py_index xs i = Inr (py_nth xs i)"
  by (simp add: py_index_def py_nth_def)

lemma threshold_loop_shape:
  "readable_candidates chs cands \<Longrightarrow>
   \<exists>rs. threshold_loop cfg sge chs top_k cands results = Inr (results @ rs)
        \<and> (int (length results) < top_k \<longrightarrow> int (length (results @ rs)) \<le> top_k)"
proof (induction cands arbitrary: results)
  case Nil
  then show ?case by simp
next
  case (Cons cand rest)
  obtain score idx where cand: "cand = (score, idx)" by (cases cand)
  from Cons.prems have v: "- int (length chs) \<le> idx" "idx < int (length chs)"
    and vr: "readable_candidates chs rest"
    by (simp_all add: readable_candidates_def cand)
  note rd = py_index_readable [OF v]
  show ?case
  proof (cases "sge score (SIMILARITY_THRESHOLD cfg)")
    case True
    let ?r = "results @ [(py_nth chs idx, score)]"
    show ?thesis
    proof (cases "int (length ?r) \<ge> top_k")
      case True
      with \<open>sge score (SIMILARITY_THRESHOLD cfg)\<close> v show ?thesis
        by (auto simp: cand rd)
    next
      case False
      from Cons.IH [OF vr, of ?r] obtain rs where
        "threshold_loop cfg sge chs top_k rest ?r = Inr (?r @ rs)"
        "int (length ?r) < top_k \<longrightarrow> int (length (?r @ rs)) \<le> top_k" by blast
      with False \<open>sge score (SIMILARITY_THRESHOLD cfg)\<close> v show ?thesis
        by (auto simp: cand rd)
    qed
  next
    case False
    show ?thesis
    proof (cases "int (length results) \<ge> top_k")
      case True
      with False show ?thesis by (auto simp: cand)
    next
      case nb: False
      from Cons.IH [OF vr, of results] obtain rs where
        "threshold_loop cfg sge chs top_k rest results = Inr (results @ rs)"
        "int (length results) < top_k \<longrightarrow> int (length (results @ rs)) \<le> top_k" by blast
      with False nb show ?thesis by (auto simp: cand)
    qed
  qed
qed

lemma threshold_loop_below:
  "below_threshold cfg sge cands \<Longrightarrow> threshold_loop cfg sge chs top_k cands results = Inr results"
  by (induction cands arbitrary: results) (auto simp: below_threshold_def)

lemma fallback_loop_readable:
  "readable_candidates chs cands \<Longrightarrow>
   fallback_loop chs top_k i cands results
     = Inr (results @ map (raw_result chs) (take (nat (top_k - int i)) cands))"
proof (induction cands arbitrary: i results)
  case Nil
  then show ?case by simp
next
  case (Cons cand rest)
  obtain score idx where cand: "cand = (score, idx)" by (cases cand)
  from Cons.prems have v: "- int (length chs) \<le> idx" "idx < int (length chs)"
    and vr: "readable_candidates chs rest"
    by (simp_all add: readable_candidates_def cand)
  note rd = py_index_readable [OF v]
  show ?case
  proof (cases "int i < top_k")
    case True
    then have "nat (top_k - int i) = Suc (nat (top_k - int (Suc i)))" by simp
    with True v Cons.IH [OF vr, of "Suc i" "results @ [(py_nth chs idx, score)]"] show ?thesis
      by (simp add: cand rd raw_result_def)
  next
    case False
    then have "nat (top_k - int i) = 0" "nat (top_k - int (Suc i)) = 0" by simp_all
    with False Cons.IH [OF vr, of "Suc i" results] show ?thesis
      by (simp add: cand)
  qed
qed

text \<open>The answer of the flat index can be read in a chunk list that is not shorter.\<close>

lemma flat_index_answer_readable:
  assumes "flat_index_answer ix k (Inr cands)" "ntotal ix \<le> length chs" "chs \<noteq> []"
  shows "readable_candidates chs cands"
proof -
  from assms(1) have
    own: "list_all (\<lambda>cand. 0 \<le> snd cand \<and> snd cand < int (ntotal ix)) (take (ntotal ix) cands)"
    and pad: "list_all (\<lambda>cand. snd cand = - 1) (drop (ntotal ix) cands)"
    by (simp_all add: flat_index_answer_def)
  from assms(3) have pos: "1 \<le> int (length chs)" by (cases chs) simp_all
  from own assms(2) have a: "readable_candidates chs (take (ntotal ix) cands)"
    by (auto simp: readable_candidates_def list_all_iff)
  have b: "readable_candidates chs (drop (ntotal ix) cands)"
    unfolding readable_candidates_def list_all_iff
  proof
    fix cand assume "cand \<in> set (drop (ntotal ix) cands)"
    with pad have "snd cand = - 1" by (simp add: list_all_iff)
    with pos show "- int (length chs) \<le> snd cand \<and> snd cand < int (length chs)" by simp
  qed
  have "readable_candidates chs (take (ntotal ix) cands @ drop (ntotal ix) cands)"
    using a b unfolding readable_candidates_def by (simp only: list_all_append simp_thms)
  then show ?thesis by simp
qed

lemma search_on_readable_candidates:
  assumes built: "index vs = Some ix"
    and k1: "1 \<le> requested_top_k cfg top_k_arg"
    and backend: "isearch ix q (search_k_of cfg top_k_arg vs) = Inr cands"
    and cne: "cands \<noteq> []"
    and readable: "readable_candidates (chunks vs) cands"
  shows "\<exists>rs. search cfg sge isearch q top_k_arg vs = (Inr rs, vs) \<and> rs \<noteq> []
           \<and> int (length rs) \<le> requested_top_k cfg top_k_arg
           \<and> (below_threshold cfg sge cands \<longrightarrow>
                rs = map (raw_result (chunks vs)) (take (nat (requested_top_k cfg top_k_arg)) cands))"
proof -
  define top_k where "top_k = requested_top_k cfg top_k_arg"
  have tk: "(case top_k_arg of None \<Rightarrow> TOP_K cfg | Some k \<Rightarrow> k) = top_k"
    by (simp add: top_k_def requested_top_k_def)
  have sk: "min (top_k * 3) (int (length (chunks vs))) = search_k_of cfg top_k_arg vs"
    by (simp add: search_k_of_def top_k_def)
  from threshold_loop_shape [OF readable, of cfg sge top_k "[]"] k1 obtain rs1 where
    t1: "threshold_loop cfg sge (chunks vs) top_k cands [] = Inr rs1" and
    b1: "int (length rs1) \<le> top_k" by (auto simp: top_k_def)
  have fb: "fallback_loop (chunks vs) top_k 0 cands []
              = Inr (map (raw_result (chunks vs)) (take (nat top_k) cands))"
    using fallback_loop_readable [OF readable, of top_k 0 "[]"] by simp
  have tne: "take (nat top_k) cands \<noteq> []"
    using cne k1 by (cases cands) (auto simp: top_k_def take_Cons')
  have s: "search cfg sge isearch q top_k_arg vs
             = (Inr (if rs1 = [] then map (raw_result (chunks vs)) (take (nat top_k) cands) else rs1), vs)"
    using cne by (simp add: search_def Let_def tk sk built backend t1 fb)
  have below: "below_threshold cfg sge cands \<Longrightarrow> rs1 = []"
    using threshold_loop_below [of cfg sge cands "chunks vs" top_k "[]"] t1 by simp
  show ?thesis
    using s tne b1 below by (auto simp: top_k_def [symmetric])
qed

text \<open>
  Claim C2, amended. Let the index be built, let it hold no more rows than there are
  chunks (as after a build, where the two numbers are equal), let the chunk list be
  non-empty and \<open>top_k\<close> at least one, and let the library answer the request of
  \<open>search\<close> as the flat index does. Then \<open>search\<close> returns a non-empty list of at most
  \<open>top_k\<close> results and leaves the store as it is; when every candidate fails the
  comparison with \<open>SIMILARITY_THRESHOLD\<close>, the list is that of the first \<open>top_k\<close>
  candidates.
\<close>

theorem search_returns_candidates:
  assumes built: "index vs = Some ix"
    and sizes: "ntotal ix \<le> length (chunks vs)"
    and nonempty: "chunks vs \<noteq> []"
    and k1: "1 \<le> requested_top_k cfg top_k_arg"
    and lib: "flat_index_answer ix (search_k_of cfg top_k_arg vs)
                (isearch ix q (search_k_of cfg top_k_arg vs))"
  shows "\<exists>cands rs. isearch ix q (search_k_of cfg top_k_arg vs) = Inr cands
           \<and> search cfg sge isearch q top_k_arg vs = (Inr rs, vs) \<and> rs \<noteq> []
           \<and> int (length rs) \<le> requested_top_k cfg top_k_arg
           \<and> (below_threshold cfg sge cands \<longrightarrow>
                rs = map (raw_result (chunks vs)) (take (nat (requested_top_k cfg top_k_arg)) cands))"
proof -
  from nonempty k1 have sk1: "1 \<le> search_k_of cfg top_k_arg vs"
    by (cases "chunks vs") (simp_all add: search_k_of_def)
  with lib obtain cands where
    backend: "isearch ix q (search_k_of cfg top_k_arg vs) = Inr cands"
    by (cases "isearch ix q (search_k_of cfg top_k_arg vs)") (auto simp: flat_index_answer_def)
  from lib have fa: "flat_index_answer ix (search_k_of cfg top_k_arg vs) (Inr cands)"
    by (simp add: backend)
  then have "length cands = nat (search_k_of cfg top_k_arg vs)"
    by (simp add: flat_index_answer_def)
  with sk1 have cne: "cands \<noteq> []" by auto
  from flat_index_answer_readable [OF fa sizes nonempty]
  have readable: "readable_candidates (chunks vs) cands" .
  from search_on_readable_candidates
         [where isearch = isearch and sge = sge, OF built k1 backend cne readable] backend
  show ?thesis by blast
qed

theorem search_returns_candidates_witness:
  "search default_config real_ge first_rows ''robot movies'' (Some 5) robowar_store
     = (Inr [(robowar_chunk, 1 / 10)], robowar_store)"
proof -
  have sk: "search_k_of default_config (Some 5) robowar_store = 1"
    by (simp add: search_k_of_def requested_top_k_def robowar_store_def)
  have h1: "index robowar_store = Some one_row_index" by (simp add: robowar_store_def)
  have h2: "ntotal one_row_index \<le> length (chunks robowar_store)"
    by (simp add: ntotal_def one_row_index_def robowar_store_def)
  have h3: "chunks robowar_store \<noteq> []" by (simp add: robowar_store_def)
  have h4: "1 \<le> requested_top_k default_config (Some 5)" by (simp add: requested_top_k_def)
  have a: "first_rows one_row_index ''robot movies'' (search_k_of default_config (Some 5) robowar_store)
              = Inr [(1 / 10, 0)]"
    by (simp add: sk first_rows_def ntotal_def one_row_index_def)
  have h5: "flat_index_answer one_row_index (search_k_of default_config (Some 5) robowar_store)
              (first_rows one_row_index ''robot movies''
                 (search_k_of default_config (Some 5) robowar_store))"
    unfolding a by (simp add: sk flat_index_answer_def ntotal_def one_row_index_def)
  have h6: "below_threshold default_config real_ge [(1 / 10, 0)]"
    by (simp add: below_threshold_def default_config_def real_ge_def)
  from search_returns_candidates
         [where isearch = first_rows and q = "''robot movies''" and cfg = default_config
            and top_k_arg = "Some 5" and vs = robowar_store and sge = real_ge,
          OF h1 h2 h3 h4 h5]
  obtain cands rs where
    c: "first_rows one_row_index ''robot movies'' (search_k_of default_config (Some 5) robowar_store)
          = Inr cands"
    and r: "search default_config real_ge first_rows ''robot movies'' (Some 5) robowar_store
              = (Inr rs, robowar_store)"
    and raw: "below_threshold default_config real_ge cands \<longrightarrow>
                rs = map (raw_result (chunks robowar_store))
                       (take (nat (requested_top_k default_config (Some 5))) cands)"
    by blast
  from c a have "cands = [(1 / 10, 0)]" by simp
  with raw h6 have "rs = [(robowar_chunk, 1 / 10)]"
    by (simp add: raw_result_def py_nth_def robowar_store_def requested_top_k_def)
  with r show ?thesis by simp
qed

section \<open>Sentence-aware chunking\<close>

lemma overlap_sentences_drop: "overlap_sentences xs = drop (length xs - 2) xs"
proof -
  have a: "py_clamp (length xs) (- 2) = length xs - 2"
    by (auto simp: py_clamp_def max_def)
  have b: "length xs < 2 \<Longrightarrow> py_clamp (length xs) (- 1) = length xs - 2"
    by (auto simp: py_clamp_def max_def)
  show ?thesis
    by (simp add: overlap_sentences_def py_suffix_def a b)
qed

lemma overlap_sentences_nonempty: "xs \<noteq> [] \<Longrightarrow> overlap_sentences xs \<noteq> []"
  by (cases xs) (auto simp: overlap_sentences_drop)

lemma numbered_chunks_snoc:
  "numbered_chunks doc (gs @ [g]) = numbered_chunks doc gs @ [mk_chunk doc g (length gs)]"
  by (simp add: numbered_chunks_def enumerate_append_eq)

lemma length_numbered_chunks [simp]: "length (numbered_chunks doc gs) = length gs"
  by (simp add: numbered_chunks_def)

lemma semantic_loop_groups:
  "semantic_loop cfg doc ss (numbered_chunks doc gs, cur, len)
     = (case groups_loop cfg ss (gs, cur, len) of
          (gs', cur', len') \<Rightarrow> (numbered_chunks doc gs', cur', len'))"
proof (induction ss arbitrary: gs cur len)
  case Nil
  then show ?case by simp
next
  case (Cons s ss)
  show ?case
    using Cons.IH [of "gs @ [cur]"] Cons.IH [of gs]
    by (simp add: numbered_chunks_snoc)
qed

lemma semantic_chunking_groups:
  "semantic_chunking cfg text doc = numbered_chunks doc (sentence_groups cfg (split_sentences text))"
proof -
  have e: "numbered_chunks doc [] = []" by (simp add: numbered_chunks_def)
  show ?thesis
    using semantic_loop_groups [of cfg doc "split_sentences text" "[]" "[]" 0]
    by (auto simp: semantic_chunking_def sentence_groups_def e numbered_chunks_snoc
          split: prod.splits)
qed

lemma fresh_sentences_snoc:
  "fresh_sentences prev (gs @ [h])
     = fresh_sentences prev gs @ drop (length (overlap_sentences (last (prev # gs)))) h"
  by (induction gs arbitrary: prev) auto

lemma dedup_overlap_snoc:
  "gs \<noteq> [] \<Longrightarrow>
   dedup_overlap (gs @ [h]) = dedup_overlap gs @ drop (length (overlap_sentences (last gs))) h"
  by (cases gs) (auto simp: fresh_sentences_snoc)

lemma carries_overlap_snoc:
  "carries_overlap prev (gs @ [h])
     = (carries_overlap prev gs
        \<and> take (length (overlap_sentences (last (prev # gs)))) h = overlap_sentences (last (prev # gs))
        \<and> length (overlap_sentences (last (prev # gs))) < length h)"
  by (induction gs arbitrary: prev) auto

lemma consecutive_overlap_snoc:
  "gs \<noteq> [] \<Longrightarrow>
   consecutive_overlap (gs @ [h])
     = (consecutive_overlap gs
        \<and> take (length (overlap_sentences (last gs))) h = overlap_sentences (last gs)
        \<and> length (overlap_sentences (last gs)) < length h)"
  by (cases gs) (auto simp: carries_overlap_snoc)

lemma loop_inv_step_append:
  assumes "loop_inv processed (gs, cur, len)"
  shows "loop_inv (processed @ [s]) (gs, cur @ [s], len + sentence_length s)"
  using assms
  by (auto simp: loop_inv_def list_all_iff sublist_append split: if_splits)

lemma loop_inv_step_close:
  assumes inv: "loop_inv processed (gs, cur, len)" and pos: "0 < len"
  shows "loop_inv (processed @ [s])
           (gs @ [cur], overlap_sentences cur @ [s],
            sum_list (map sentence_length (overlap_sentences cur)) + sentence_length s)"
proof -
  from inv pos have ne: "cur \<noteq> []" by (auto simp: loop_inv_def)
  from inv have suf: "suffix cur processed" by (simp add: loop_inv_def)
  have so: "suffix (overlap_sentences cur) cur"
    by (simp add: overlap_sentences_drop suffix_drop)
  from so suf have "suffix (overlap_sentences cur) processed" by (rule suffix_order.trans)
  then have s1: "suffix (overlap_sentences cur @ [s]) (processed @ [s])" by simp
  from inv have ga: "list_all (\<lambda>g. g \<noteq> [] \<and> sublist g (processed @ [s])) gs"
    by (auto simp: loop_inv_def list_all_iff sublist_append)
  from suf have "sublist cur (processed @ [s])"
    by (auto simp: sublist_append)
  with ne ga have s2: "list_all (\<lambda>g. g \<noteq> [] \<and> sublist g (processed @ [s])) (gs @ [cur])"
    by simp
  have dd: "dedup_overlap (gs @ [cur]) = processed"
  proof (cases "gs = []")
    case True
    with inv show ?thesis by (simp add: loop_inv_def)
  next
    case False
    with inv obtain new where "cur = overlap_sentences (last gs) @ new"
      "dedup_overlap gs @ new = processed" by (auto simp: loop_inv_def)
    with False show ?thesis by (simp add: dedup_overlap_snoc)
  qed
  have co: "consecutive_overlap (gs @ [cur])"
  proof (cases "gs = []")
    case True
    then show ?thesis by simp
  next
    case False
    with inv obtain new where n: "new \<noteq> []" and c: "cur = overlap_sentences (last gs) @ new"
      by (auto simp: loop_inv_def)
    from inv have cg: "consecutive_overlap gs" by (simp add: loop_inv_def)
    from n False c cg show ?thesis by (simp add: consecutive_overlap_snoc)
  qed
  show ?thesis
    using s1 s2 dd co by (simp add: loop_inv_def)
qed

lemma loop_inv_groups_loop:
  "loop_inv processed st \<Longrightarrow> loop_inv (processed @ ss) (groups_loop cfg ss st)"
proof (induction ss arbitrary: processed st)
  case Nil
  then show ?case by simp
next
  case (Cons s ss)
  obtain gs cur len where st: "st = (gs, cur, len)" by (cases st)
  show ?case
  proof (cases "len + sentence_length s > CHUNK_SIZE cfg \<and> len > 0")
    case True
    with Cons.prems have "loop_inv (processed @ [s])
           (gs @ [cur], overlap_sentences cur @ [s],
            sum_list (map sentence_length (overlap_sentences cur)) + sentence_length s)"
      by (simp add: st loop_inv_step_close)
    from Cons.IH [OF this] True show ?thesis by (simp add: st)
  next
    case False
    then have eq: "groups_loop cfg (s # ss) st
                     = groups_loop cfg ss (gs, cur @ [s], len + sentence_length s)"
      by (auto simp: st)
    from Cons.prems have "loop_inv (processed @ [s]) (gs, cur @ [s], len + sentence_length s)"
      by (simp add: st loop_inv_step_append)
    from Cons.IH [OF this] show ?thesis by (simp add: eq)
  qed
qed

lemma loop_inv_initial: "loop_inv [] ([], [], 0)"
  by (simp add: loop_inv_def)

lemma sentence_groups_properties:
  "dedup_overlap (sentence_groups cfg ss) = ss
   \<and> consecutive_overlap (sentence_groups cfg ss)
   \<and> list_all (\<lambda>g. g \<noteq> [] \<and> sublist g ss) (sentence_groups cfg ss)"
proof -
  obtain gs cur len where g: "groups_loop cfg ss ([], [], 0) = (gs, cur, len)"
    by (cases "groups_loop cfg ss ([], [], 0)")
  from loop_inv_groups_loop [OF loop_inv_initial, of ss cfg] g
  have inv: "loop_inv ss (gs, cur, len)" by simp
  show ?thesis
  proof (cases "cur = []")
    case True
    have gs: "gs = []"
    proof (rule ccontr)
      assume "gs \<noteq> []"
      with inv obtain new where "new \<noteq> []" "cur = overlap_sentences (last gs) @ new"
        by (auto simp: loop_inv_def)
      with True show False by simp
    qed
    with inv True have "ss = []" by (simp add: loop_inv_def)
    with gs True g show ?thesis by (simp add: sentence_groups_def)
  next
    case False
    show ?thesis
    proof (cases "gs = []")
      case True
      with inv False g show ?thesis
        by (auto simp: sentence_groups_def loop_inv_def)
    next
      case ne: False
      with inv obtain new where n: "new \<noteq> []" and c: "cur = overlap_sentences (last gs) @ new"
        and d: "dedup_overlap gs @ new = ss"
        by (auto simp: loop_inv_def)
      from inv have rest: "consecutive_overlap gs" "suffix cur ss"
        "list_all (\<lambda>g. g \<noteq> [] \<and> sublist g ss) gs"
        by (simp_all add: loop_inv_def)
      from ne False g n c d rest show ?thesis
        by (auto simp: sentence_groups_def dedup_overlap_snoc consecutive_overlap_snoc)
    qed
  qed
qed

lemma content_enumerated:
  "map content (map (\<lambda>(k, g). mk_chunk doc g k) (enumerate n gs)) = map (py_join '' '') gs"
  by (induction gs arbitrary: n) (simp_all add: mk_chunk_def)

lemma chunk_id_enumerated:
  "map chunk_id (map (\<lambda>(k, g). mk_chunk doc g k) (enumerate n gs))
     = map (\<lambda>k. title (doc_metadata doc) @ ''_'' @ str_int (int k)) [n..<n + length gs]"
  by (induction gs arbitrary: n) (simp_all add: mk_chunk_def upt_conv_Cons del: upt_Suc)

lemma content_numbered_chunks:
  "map content (numbered_chunks doc gs) = map (py_join '' '') gs"
  unfolding numbered_chunks_def by (rule content_enumerated)

lemma chunk_id_numbered_chunks:
  "map chunk_id (numbered_chunks doc gs)
     = map (\<lambda>k. title (doc_metadata doc) @ ''_'' @ str_int (int k)) [0..<length gs]"
  unfolding numbered_chunks_def using chunk_id_enumerated [of doc 0 gs] by simp

text \<open>
  Claim C5. The chunks of the sentence-aware strategy are the joined groups of sentences;
  every group after the first starts with the sentences carried over from the group before
  it; and the groups, with the carried sentences dropped, concatenate to the sentences of
  the document in their order.
\<close>

theorem semantic_chunks_reconstruct_sentences:
  "map content (semantic_chunking cfg text doc)
     = map (py_join '' '') (sentence_groups cfg (split_sentences text))
   \<and> consecutive_overlap (sentence_groups cfg (split_sentences text))
   \<and> dedup_overlap (sentence_groups cfg (split_sentences text)) = split_sentences text"
  using sentence_groups_properties [of cfg "split_sentences text"]
  by (simp add: semantic_chunking_groups content_numbered_chunks)

theorem semantic_chunks_reconstruct_sentences_witness:
  "map content (semantic_chunking small_smart_config (doc_content robowar_doc) robowar_doc)
     = [''Movie: RoboWar Year: 1999'', ''Movie: RoboWar Year: 1999 Genres: Sci-Fi'',
        ''Year: 1999 Genres: Sci-Fi Plot: A robot fights crime'']
   \<and> dedup_overlap [[''Movie: RoboWar'', ''Year: 1999''],
                      [''Movie: RoboWar'', ''Year: 1999'', ''Genres: Sci-Fi''],
                      [''Year: 1999'', ''Genres: Sci-Fi'', ''Plot: A robot fights crime'']]
     = [''Movie: RoboWar'', ''Year: 1999'', ''Genres: Sci-Fi'', ''Plot: A robot fights crime'']"
proof -
  have s: "split_sentences (doc_content robowar_doc)
             = [''Movie: RoboWar'', ''Year: 1999'', ''Genres: Sci-Fi'', ''Plot: A robot fights crime'']"
    by code_simp
  have g: "sentence_groups small_smart_config
             [''Movie: RoboWar'', ''Year: 1999'', ''Genres: Sci-Fi'', ''Plot: A robot fights crime'']
           = [[''Movie: RoboWar'', ''Year: 1999''],
              [''Movie: RoboWar'', ''Year: 1999'', ''Genres: Sci-Fi''],
              [''Year: 1999'', ''Genres: Sci-Fi'', ''Plot: A robot fights crime'']]"
    by code_simp
  from semantic_chunks_reconstruct_sentences
         [of small_smart_config "doc_content robowar_doc" robowar_doc]
  show ?thesis
    unfolding s g by simp
qed

text \<open>
  Claim C10. \<open>CHUNK_SIZE\<close> does not bound a sentence-aware chunk: with a chunk size of
  four words the document of one sentence of eight words comes out as one chunk of eight
  words, and under every configuration a text of a single sentence comes out as one chunk
  holding that sentence. A chunk is never cut inside a sentence: every chunk is the join
  of a non-empty run of consecutive whole sentences of the document.
\<close>

theorem sentence_aware_chunk_exceeds_chunk_size:
  "(\<exists>c. chunk_document small_smart_config long_sentence_doc = Inr [c]
         \<and> CHUNK_SIZE small_smart_config < int (length (py_split (content c))))
   \<and> (split_sentences text = [s] \<longrightarrow> map content (semantic_chunking cfg text doc) = [s])
   \<and> map content (semantic_chunking cfg text doc)
        = map (py_join '' '') (sentence_groups cfg (split_sentences text))
   \<and> list_all (\<lambda>g. g \<noteq> [] \<and> sublist g (split_sentences text))
        (sentence_groups cfg (split_sentences text))"
proof (intro conjI impI)
  have e: "chunk_document small_smart_config long_sentence_doc
             = Inr [\<lparr>content = ''A lone robot fights crime in the city'',
                     metadata = doc_metadata long_sentence_doc, chunk_id = ''RoboWar_0''\<rparr>]"
    by code_simp
  have w: "CHUNK_SIZE small_smart_config
             < int (length (py_split ''A lone robot fights crime in the city''))"
    by code_simp
  from e w show "\<exists>c. chunk_document small_smart_config long_sentence_doc = Inr [c]
         \<and> CHUNK_SIZE small_smart_config < int (length (py_split (content c)))"
    by simp
next
  assume "split_sentences text = [s]"
  then show "map content (semantic_chunking cfg text doc) = [s]"
    by (simp add: semantic_chunking_groups content_numbered_chunks sentence_groups_def)
next
  show "map content (semantic_chunking cfg text doc)
        = map (py_join '' '') (sentence_groups cfg (split_sentences text))"
    by (simp add: semantic_chunking_groups content_numbered_chunks)
next
  show "list_all (\<lambda>g. g \<noteq> [] \<and> sublist g (split_sentences text))
        (sentence_groups cfg (split_sentences text))"
    using sentence_groups_properties [of cfg "split_sentences text"] by simp
qed

theorem sentence_aware_chunk_exceeds_chunk_size_witness:
  "map content (semantic_chunking default_config ''A lone robot fights crime in the city.'' long_sentence_doc)
     = [''A lone robot fights crime in the city'']
   \<and> length (py_split ''A lone robot fights crime in the city'') = 8"
proof -
  have s: "split_sentences ''A lone robot fights crime in the city.''
             = [''A lone robot fights crime in the city'']"
    by code_simp
  have w: "length (py_split ''A lone robot fights crime in the city'') = 8"
    by code_simp
  from sentence_aware_chunk_exceeds_chunk_size
         [of "''A lone robot fights crime in the city.''" "''A lone robot fights crime in the city''"
             default_config long_sentence_doc] s w
  show ?thesis by simp
qed

section \<open>Fixed-size chunking\<close>

lemma isspace_space: "isspace CHR '' ''"
  by (simp add: isspace_def)

lemma split_acc_words:
  "list_all (\<lambda>c. \<not> isspace c) w \<Longrightarrow> list_all is_word (split_acc w s)"
  by (induction s arbitrary: w) (auto simp: is_word_def)

lemma py_split_words: "list_all is_word (py_split s)"
  by (simp add: py_split_def split_acc_words)

lemma split_acc_append_word:
  "list_all (\<lambda>c. \<not> isspace c) u \<Longrightarrow> split_acc w (u @ rest) = split_acc (w @ u) rest"
  by (induction u arbitrary: w) auto

lemma split_acc_join:
  "list_all is_word ws \<Longrightarrow> split_acc [] (py_join '' '' ws) = ws"
proof (induction "'' ''" ws rule: py_join.induct)
  case 1
  then show ?case by simp
next
  case (2 x)
  then have "split_acc [] (x @ []) = split_acc ([] @ x) []"
    by (intro split_acc_append_word) (simp add: is_word_def)
  with 2 show ?case by (simp add: is_word_def)
next
  case (3 x y ys)
  from "3.prems" have x: "x \<noteq> []" "list_all (\<lambda>c. \<not> isspace c) x"
    and rest: "list_all is_word (y # ys)"
    by (simp_all add: is_word_def)
  have "split_acc [] (x @ ('' '' @ py_join '' '' (y # ys)))
          = split_acc ([] @ x) ('' '' @ py_join '' '' (y # ys))"
    using x(2) by (rule split_acc_append_word)
  also have "\<dots> = x # split_acc [] (py_join '' '' (y # ys))"
    using x(1) by (simp add: isspace_space)
  also have "\<dots> = x # y # ys"
    using "3.hyps" [OF rest] by simp
  finally show ?case by simp
qed

lemma py_split_join: "list_all is_word ws \<Longrightarrow> py_split (py_join '' '' ws) = ws"
  by (simp add: py_split_def split_acc_join)

lemma py_slice_window:
  assumes "0 \<le> i" "0 \<le> s"
  shows "py_slice xs i (i + s) = take (nat s) (drop (nat i) xs)"
proof (cases "nat i \<le> length xs")
  case True
  with assms have lo: "py_clamp (length xs) i = nat i"
    by (simp add: py_clamp_def)
  from assms have hi: "py_clamp (length xs) (i + s) = min (nat i + nat s) (length xs)"
    by (simp add: py_clamp_def nat_add_distrib)
  have "take (min (nat i + nat s) (length xs) - nat i) (drop (nat i) xs)
          = take (nat s) (drop (nat i) xs)"
    using True by (simp add: min_def)
  then show ?thesis by (simp add: py_slice_def lo hi)
next
  case False
  with assms have lo: "py_clamp (length xs) i = length xs"
    by (simp add: py_clamp_def)
  from False show ?thesis by (simp add: py_slice_def lo)
qed

lemma fixed_loop_windows:
  assumes "0 < step" "step \<le> CHUNK_SIZE cfg" "0 \<le> i" "i < int (length words)"
  shows "\<exists>cs. fixed_loop cfg words doc (py_range i (int (length words)) step) = Inr cs
           \<and> cs \<noteq> []
           \<and> (\<forall>k<length cs. fixed_chunk cfg words doc (i + int k * step) = Inr (cs ! k))
           \<and> (\<forall>k. Suc k < length cs \<longrightarrow> i + int k * step + CHUNK_SIZE cfg < int (length words))
           \<and> int (length words) \<le> i + int (length cs - 1) * step + CHUNK_SIZE cfg"
  using assms
proof (induction i "int (length words)" step rule: py_range.induct)
  case (1 i step)
  let ?n = "int (length words)"
  from "1.prems" have r: "py_range i ?n step = i # py_range (i + step) ?n step"
    by (subst py_range.simps) simp
  from "1.prems" have nz: "CHUNK_SIZE cfg \<noteq> 0" by simp
  then obtain c where c: "fixed_chunk cfg words doc i = Inr c"
    by (simp add: fixed_chunk_def)
  show ?case
  proof (cases "i + CHUNK_SIZE cfg \<ge> ?n")
    case True
    then have "fixed_loop cfg words doc (py_range i ?n step) = Inr [c]"
      by (simp add: r c)
    with True c show ?thesis by simp
  next
    case False
    with "1.prems" have lt: "i + step < ?n" "0 \<le> i + step" by simp_all
    have go: "0 < step \<and> i < ?n \<or> step < 0 \<and> ?n < i"
      using "1.prems" by simp
    from "1.hyps" [OF go "1.prems"(1,2) lt(2,1)] obtain cs where
      cs: "fixed_loop cfg words doc (py_range (i + step) ?n step) = Inr cs" "cs \<noteq> []"
      and ck: "\<forall>k<length cs. fixed_chunk cfg words doc (i + step + int k * step) = Inr (cs ! k)"
      and lt': "\<forall>k. Suc k < length cs \<longrightarrow> i + step + int k * step + CHUNK_SIZE cfg < ?n"
      and last: "?n \<le> i + step + int (length cs - 1) * step + CHUNK_SIZE cfg"
      by blast
    from False have res: "fixed_loop cfg words doc (py_range i ?n step) = Inr (c # cs)"
      by (simp add: r c cs)
    have sh: "\<And>k'. i + int (Suc k') * step = i + step + int k' * step"
      by (simp add: algebra_simps)
    have a: "\<forall>k<length (c # cs). fixed_chunk cfg words doc (i + int k * step) = Inr ((c # cs) ! k)"
    proof (intro allI impI)
      fix k assume kl: "k < length (c # cs)"
      show "fixed_chunk cfg words doc (i + int k * step) = Inr ((c # cs) ! k)"
      proof (cases k)
        case 0
        then show ?thesis by (simp add: c)
      next
        case (Suc k')
        with kl have "k' < length cs" by simp
        with ck have "fixed_chunk cfg words doc (i + step + int k' * step) = Inr (cs ! k')"
          by blast
        then show ?thesis unfolding Suc sh by simp
      qed
    qed
    have b: "\<forall>k. Suc k < length (c # cs) \<longrightarrow> i + int k * step + CHUNK_SIZE cfg < ?n"
    proof (intro allI impI)
      fix k assume kl: "Suc k < length (c # cs)"
      show "i + int k * step + CHUNK_SIZE cfg < ?n"
      proof (cases k)
        case 0
        with False show ?thesis by simp
      next
        case (Suc k')
        with kl have "Suc k' < length cs" by simp
        with lt' have "i + step + int k' * step + CHUNK_SIZE cfg < ?n"
          by blast
        then show ?thesis unfolding Suc sh .
      qed
    qed
    from cs(2) obtain m where m: "length cs = Suc m" by (cases cs) simp_all
    from last have d: "?n \<le> i + int (length (c # cs) - 1) * step + CHUNK_SIZE cfg"
      by (simp add: m algebra_simps)
    have ne: "c # cs \<noteq> []" by simp
    from res ne a b d show ?thesis by (intro exI [of _ "c # cs"] conjI)
  qed
qed

lemma fixed_chunk_words:
  assumes "fixed_chunk cfg (py_split text) doc i = Inr c" "0 \<le> i" "0 \<le> CHUNK_SIZE cfg"
  shows "py_split (content c) = take (nat (CHUNK_SIZE cfg)) (drop (nat i) (py_split text))"
    and "chunk_id c = title (doc_metadata doc) @ ''_'' @ str_int (i div CHUNK_SIZE cfg)"
proof -
  from assms(1) have c: "c = \<lparr>content = py_join '' '' (py_slice (py_split text) i (i + CHUNK_SIZE cfg)),
                metadata = doc_metadata doc,
                chunk_id = title (doc_metadata doc) @ ''_'' @ str_int (i div CHUNK_SIZE cfg)\<rparr>"
    by (auto simp: fixed_chunk_def split: if_splits)
  have w: "list_all is_word (take (nat (CHUNK_SIZE cfg)) (drop (nat i) (py_split text)))"
    using py_split_words [of "text"]
    by (auto simp: list_all_iff dest: in_set_takeD in_set_dropD)
  show "py_split (content c) = take (nat (CHUNK_SIZE cfg)) (drop (nat i) (py_split text))"
    by (simp add: c py_slice_window [OF assms(2,3)] py_split_join [OF w])
  show "chunk_id c = title (doc_metadata doc) @ ''_'' @ str_int (i div CHUNK_SIZE cfg)"
    by (simp add: c)
qed

text \<open>The shape of the output of the fixed-size strategy under a valid configuration.\<close>

lemma fixed_size_chunking_windows:
  assumes ov: "0 < CHUNK_OVERLAP cfg" "CHUNK_OVERLAP cfg < CHUNK_SIZE cfg"
    and fixed: "\<not> SMART_CHUNKING cfg"
    and long: "CHUNK_SIZE cfg < int (length (py_split (doc_content doc)))"
  shows "\<exists>cs. chunk_document cfg doc = Inr cs \<and> cs \<noteq> []
           \<and> (\<forall>k<length cs.
                 py_split (content (cs ! k))
                   = take (nat (CHUNK_SIZE cfg))
                       (drop (k * nat (CHUNK_SIZE cfg - CHUNK_OVERLAP cfg)) (py_split (doc_content doc)))
                 \<and> chunk_id (cs ! k)
                     = title (doc_metadata doc) @ ''_''
                       @ str_int (int k * (CHUNK_SIZE cfg - CHUNK_OVERLAP cfg) div CHUNK_SIZE cfg))
           \<and> (\<forall>k. Suc k < length cs \<longrightarrow>
                 k * nat (CHUNK_SIZE cfg - CHUNK_OVERLAP cfg) + nat (CHUNK_SIZE cfg)
                   < length (py_split (doc_content doc)))
           \<and> length (py_split (doc_content doc))
                 \<le> (length cs - 1) * nat (CHUNK_SIZE cfg - CHUNK_OVERLAP cfg) + nat (CHUNK_SIZE cfg)"
proof -
  let ?words = "py_split (doc_content doc)"
  let ?S = "CHUNK_SIZE cfg"
  let ?step = "CHUNK_SIZE cfg - CHUNK_OVERLAP cfg"
  from ov have st: "0 < ?step" "?step \<le> ?S" by simp_all
  from ov long have n0: "(0::int) < int (length ?words)" by linarith
  from fixed_loop_windows [OF st _ n0, of doc] obtain cs where
    fl: "fixed_loop cfg ?words doc (py_range 0 (int (length ?words)) ?step) = Inr cs"
    and ne: "cs \<noteq> []"
    and ck: "\<forall>k<length cs. fixed_chunk cfg ?words doc (0 + int k * ?step) = Inr (cs ! k)"
    and lt: "\<forall>k. Suc k < length cs \<longrightarrow> 0 + int k * ?step + ?S < int (length ?words)"
    and last: "int (length ?words) \<le> 0 + int (length cs - 1) * ?step + ?S"
    by auto
  from st long fixed have cd: "chunk_document cfg doc = Inr cs"
    by (simp add: chunk_document_def fixed_size_chunking_def Let_def fl)
  have nk: "\<And>k. nat (int k * ?step) = k * nat ?step"
    using st by (simp add: nat_mult_distrib)
  have a: "\<forall>k<length cs.
             py_split (content (cs ! k)) = take (nat ?S) (drop (k * nat ?step) ?words)
             \<and> chunk_id (cs ! k)
                 = title (doc_metadata doc) @ ''_'' @ str_int (int k * ?step div ?S)"
  proof (intro allI impI)
    fix k assume "k < length cs"
    with ck have f: "fixed_chunk cfg ?words doc (int k * ?step) = Inr (cs ! k)" by simp
    have p: "0 \<le> int k * ?step" using st by simp
    have q: "0 \<le> ?S" using ov by simp
    from fixed_chunk_words [OF f p q]
    show "py_split (content (cs ! k)) = take (nat ?S) (drop (k * nat ?step) ?words)
             \<and> chunk_id (cs ! k)
                 = title (doc_metadata doc) @ ''_'' @ str_int (int k * ?step div ?S)"
      by (simp add: nk)
  qed
  have b: "\<forall>k. Suc k < length cs \<longrightarrow> k * nat ?step + nat ?S < length ?words"
  proof (intro allI impI)
    fix k assume "Suc k < length cs"
    with lt have "int k * ?step + ?S < int (length ?words)" by simp
    moreover have "int (k * nat ?step + nat ?S) = int k * ?step + ?S"
      using st ov by simp
    ultimately show "k * nat ?step + nat ?S < length ?words" by linarith
  qed
  have "int ((length cs - 1) * nat ?step + nat ?S) = int (length cs - 1) * ?step + ?S"
    using st ov by simp
  with last have c: "length ?words \<le> (length cs - 1) * nat ?step + nat ?S" by linarith
  from cd ne a b c show ?thesis by blast
qed

text \<open>
  Claim C3. Under a valid configuration (\<open>0 < CHUNK_OVERLAP < CHUNK_SIZE\<close>), a document
  of more than \<open>CHUNK_SIZE\<close> words chunked with the fixed-size strategy is covered by its
  chunks: every word of the content is a word of some chunk, and more precisely the word at
  every position of the content stands in a chunk at the matching position of its window.
\<close>

theorem fixed_size_chunks_cover_words:
  assumes ov: "0 < CHUNK_OVERLAP cfg" "CHUNK_OVERLAP cfg < CHUNK_SIZE cfg"
    and fixed: "\<not> SMART_CHUNKING cfg"
    and long: "CHUNK_SIZE cfg < int (length (py_split (doc_content doc)))"
  shows "\<exists>cs. chunk_document cfg doc = Inr cs
           \<and> (\<forall>w\<in>set (py_split (doc_content doc)). \<exists>c\<in>set cs. w \<in> set (py_split (content c)))
           \<and> (\<forall>j<length (py_split (doc_content doc)). \<exists>k<length cs.
                 k * nat (CHUNK_SIZE cfg - CHUNK_OVERLAP cfg) \<le> j
                 \<and> j - k * nat (CHUNK_SIZE cfg - CHUNK_OVERLAP cfg) < length (py_split (content (cs ! k)))
                 \<and> py_split (content (cs ! k)) ! (j - k * nat (CHUNK_SIZE cfg - CHUNK_OVERLAP cfg))
                     = py_split (doc_content doc) ! j)"
proof -
  let ?words = "py_split (doc_content doc)"
  let ?S = "nat (CHUNK_SIZE cfg)"
  let ?st = "nat (CHUNK_SIZE cfg - CHUNK_OVERLAP cfg)"
  from ov have st: "0 < ?st" "?st \<le> ?S" by simp_all
  from fixed_size_chunking_windows [OF ov fixed long] obtain cs where
    cd: "chunk_document cfg doc = Inr cs" and ne: "cs \<noteq> []"
    and win: "\<forall>k<length cs. py_split (content (cs ! k)) = take ?S (drop (k * ?st) ?words)"
    and last: "length ?words \<le> (length cs - 1) * ?st + ?S"
    by blast
  have pos: "\<forall>j<length ?words. \<exists>k<length cs.
                 k * ?st \<le> j \<and> j - k * ?st < length (py_split (content (cs ! k)))
                 \<and> py_split (content (cs ! k)) ! (j - k * ?st) = ?words ! j"
  proof (intro allI impI)
    fix j assume j: "j < length ?words"
    define k where "k = min (j div ?st) (length cs - 1)"
    from ne have kl: "k < length cs" by (cases cs) (simp_all add: k_def)
    have "k * ?st \<le> (j div ?st) * ?st" by (simp add: k_def)
    also have "\<dots> \<le> j" by simp
    finally have lo: "k * ?st \<le> j" .
    have hi: "j < k * ?st + ?S"
    proof (cases "j div ?st \<le> length cs - 1")
      case True
      then have kk: "k = j div ?st" by (simp add: k_def)
      have "j = k * ?st + j mod ?st" by (simp add: kk)
      moreover have "j mod ?st < ?st" using st(1) by simp
      ultimately have "j < k * ?st + ?st" by linarith
      with st(2) show ?thesis by linarith
    next
      case False
      then have "k = length cs - 1" by (simp add: k_def)
      with last j show ?thesis by simp
    qed
    from kl win have w: "py_split (content (cs ! k)) = take ?S (drop (k * ?st) ?words)" by blast
    from lo hi j have "j - k * ?st < min (length ?words - k * ?st) ?S" by linarith
    then have "j - k * ?st < length (take ?S (drop (k * ?st) ?words))" by simp
    moreover from lo j have "k * ?st \<le> length ?words" "k * ?st + (j - k * ?st) = j"
      by simp_all
    with lo hi have "take ?S (drop (k * ?st) ?words) ! (j - k * ?st) = ?words ! j"
      by (simp add: nth_drop)
    ultimately show "\<exists>k<length cs.
                 k * ?st \<le> j \<and> j - k * ?st < length (py_split (content (cs ! k)))
                 \<and> py_split (content (cs ! k)) ! (j - k * ?st) = ?words ! j"
      using kl lo w by auto
  qed
  have cover: "\<forall>w\<in>set ?words. \<exists>c\<in>set cs. w \<in> set (py_split (content c))"
  proof
    fix w assume "w \<in> set ?words"
    then obtain j where j: "j < length ?words" "?words ! j = w"
      by (auto simp: in_set_conv_nth)
    with pos obtain k where k: "k < length cs"
      "j - k * ?st < length (py_split (content (cs ! k)))"
      "py_split (content (cs ! k)) ! (j - k * ?st) = ?words ! j" by blast
    then have "w \<in> set (py_split (content (cs ! k)))"
      using j(2) by (metis nth_mem)
    with k(1) show "\<exists>c\<in>set cs. w \<in> set (py_split (content c))"
      using nth_mem by blast
  qed
  from cd cover pos show ?thesis by blast
qed

theorem fixed_size_chunks_cover_words_witness:
  "0 < CHUNK_OVERLAP small_fixed_config
   \<and> CHUNK_OVERLAP small_fixed_config < CHUNK_SIZE small_fixed_config
   \<and> \<not> SMART_CHUNKING small_fixed_config
   \<and> length (py_split (doc_content robowar_doc)) = 11
   \<and> (\<exists>cs. chunk_document small_fixed_config robowar_doc = Inr cs
          \<and> map (\<lambda>c. py_split (content c)) cs
              = [[''Movie:'', ''RoboWar.'', ''Year:'', ''1999.''],
                 [''1999.'', ''Genres:'', ''Sci-Fi.'', ''Plot:''],
                 [''Plot:'', ''A'', ''robot'', ''fights''],
                 [''fights'', ''crime.'']]
          \<and> (\<forall>w\<in>set (py_split (doc_content robowar_doc)).
                 \<exists>c\<in>set cs. w \<in> set (py_split (content c))))"
proof -
  have h1: "0 < CHUNK_OVERLAP small_fixed_config"
    and h2: "CHUNK_OVERLAP small_fixed_config < CHUNK_SIZE small_fixed_config"
    and h3: "\<not> SMART_CHUNKING small_fixed_config"
    by (simp_all add: small_fixed_config_def default_config_def)
  have n: "length (py_split (doc_content robowar_doc)) = 11" by code_simp
  have h4: "CHUNK_SIZE small_fixed_config < int (length (py_split (doc_content robowar_doc)))"
    unfolding n by (simp add: small_fixed_config_def)
  have e: "map_sum id (map (\<lambda>c. py_split (content c))) (chunk_document small_fixed_config robowar_doc)
             = Inr [[''Movie:'', ''RoboWar.'', ''Year:'', ''1999.''],
                    [''1999.'', ''Genres:'', ''Sci-Fi.'', ''Plot:''],
                    [''Plot:'', ''A'', ''robot'', ''fights''],
                    [''fights'', ''crime.'']]"
    by code_simp
  from fixed_size_chunks_cover_words [OF h1 h2 h3 h4] obtain cs where
    cs: "chunk_document small_fixed_config robowar_doc = Inr cs"
    and cover: "\<forall>w\<in>set (py_split (doc_content robowar_doc)).
                  \<exists>c\<in>set cs. w \<in> set (py_split (content c))"
    by blast
  from e cs have m: "map (\<lambda>c. py_split (content c)) cs
              = [[''Movie:'', ''RoboWar.'', ''Year:'', ''1999.''],
                 [''1999.'', ''Genres:'', ''Sci-Fi.'', ''Plot:''],
                 [''Plot:'', ''A'', ''robot'', ''fights''],
                 [''fights'', ''crime.'']]" by simp
  show ?thesis
    by (intro conjI exI [of _ cs]) (rule h1 h2 h3 n cs m cover)+
qed

text \<open>
  Claim C4. Under the same conditions, of two consecutive chunks the earlier holds
  \<open>CHUNK_SIZE\<close> words, the later starts \<open>CHUNK_SIZE - CHUNK_OVERLAP\<close> words after it,
  and the last \<open>CHUNK_OVERLAP\<close> words of the earlier are the first \<open>CHUNK_OVERLAP\<close>
  words of the later. This holds for every consecutive pair, the last one included.
\<close>

theorem fixed_size_chunks_overlap:
  assumes ov: "0 < CHUNK_OVERLAP cfg" "CHUNK_OVERLAP cfg < CHUNK_SIZE cfg"
    and fixed: "\<not> SMART_CHUNKING cfg"
    and long: "CHUNK_SIZE cfg < int (length (py_split (doc_content doc)))"
  shows "\<exists>cs. chunk_document cfg doc = Inr cs
           \<and> (\<forall>k. Suc k < length cs \<longrightarrow>
                 py_split (content (cs ! k))
                   = take (nat (CHUNK_SIZE cfg))
                       (drop (k * nat (CHUNK_SIZE cfg - CHUNK_OVERLAP cfg)) (py_split (doc_content doc)))
                 \<and> py_split (content (cs ! Suc k))
                   = take (nat (CHUNK_SIZE cfg))
                       (drop (k * nat (CHUNK_SIZE cfg - CHUNK_OVERLAP cfg)
                               + nat (CHUNK_SIZE cfg - CHUNK_OVERLAP cfg)) (py_split (doc_content doc)))
                 \<and> length (py_split (content (cs ! k))) = nat (CHUNK_SIZE cfg)
                 \<and> drop (nat (CHUNK_SIZE cfg) - nat (CHUNK_OVERLAP cfg)) (py_split (content (cs ! k)))
                     = take (nat (CHUNK_OVERLAP cfg)) (py_split (content (cs ! Suc k)))
                 \<and> length (take (nat (CHUNK_OVERLAP cfg)) (py_split (content (cs ! Suc k))))
                     = nat (CHUNK_OVERLAP cfg))"
proof -
  let ?words = "py_split (doc_content doc)"
  let ?S = "nat (CHUNK_SIZE cfg)"
  let ?O = "nat (CHUNK_OVERLAP cfg)"
  let ?st = "nat (CHUNK_SIZE cfg - CHUNK_OVERLAP cfg)"
  from ov have st: "?st = ?S - ?O" "?O < ?S" "0 < ?O" by simp_all
  from fixed_size_chunking_windows [OF ov fixed long] obtain cs where
    cd: "chunk_document cfg doc = Inr cs"
    and win: "\<forall>k<length cs. py_split (content (cs ! k)) = take ?S (drop (k * ?st) ?words)"
    and lt: "\<forall>k. Suc k < length cs \<longrightarrow> k * ?st + ?S < length ?words"
    by blast
  have "\<forall>k. Suc k < length cs \<longrightarrow>
          py_split (content (cs ! k)) = take ?S (drop (k * ?st) ?words)
          \<and> py_split (content (cs ! Suc k)) = take ?S (drop (k * ?st + ?st) ?words)
          \<and> length (py_split (content (cs ! k))) = ?S
          \<and> drop (?S - ?O) (py_split (content (cs ! k))) = take ?O (py_split (content (cs ! Suc k)))
          \<and> length (take ?O (py_split (content (cs ! Suc k)))) = ?O"
  proof (intro allI impI)
    fix k assume k: "Suc k < length cs"
    with win have a: "py_split (content (cs ! k)) = take ?S (drop (k * ?st) ?words)" by simp
    from k win have "py_split (content (cs ! Suc k)) = take ?S (drop (Suc k * ?st) ?words)"
      by blast
    then have b: "py_split (content (cs ! Suc k)) = take ?S (drop (k * ?st + ?st) ?words)"
      by (simp add: add.commute)
    from k lt have room: "k * ?st + ?S < length ?words" by blast
    then have la: "length (take ?S (drop (k * ?st) ?words)) = ?S" by simp
    have d: "drop (?S - ?O) (take ?S (drop (k * ?st) ?words))
               = take ?O (take ?S (drop (k * ?st + ?st) ?words))"
      using st by (simp add: drop_take add.commute min_def)
    define p where "p = k * ?st"
    from room have "p + ?S < length ?words" by (simp add: p_def)
    with st have "?O \<le> length ?words - (p + ?st)" by linarith
    with st have lb: "length (take ?O (take ?S (drop (k * ?st + ?st) ?words))) = ?O"
      by (simp add: p_def)
    show "py_split (content (cs ! k)) = take ?S (drop (k * ?st) ?words)
          \<and> py_split (content (cs ! Suc k)) = take ?S (drop (k * ?st + ?st) ?words)
          \<and> length (py_split (content (cs ! k))) = ?S
          \<and> drop (?S - ?O) (py_split (content (cs ! k))) = take ?O (py_split (content (cs ! Suc k)))
          \<and> length (take ?O (py_split (content (cs ! Suc k)))) = ?O"
      unfolding a b using la d lb by simp
  qed
  with cd show ?thesis by blast
qed

theorem fixed_size_chunks_overlap_witness:
  "0 < CHUNK_OVERLAP small_fixed_config
   \<and> CHUNK_OVERLAP small_fixed_config < CHUNK_SIZE small_fixed_config
   \<and> \<not> SMART_CHUNKING small_fixed_config
   \<and> length (py_split (doc_content robowar_doc)) = 11
   \<and> (\<exists>cs. chunk_document small_fixed_config robowar_doc = Inr cs \<and> length cs = 4
          \<and> drop (nat (CHUNK_SIZE small_fixed_config) - nat (CHUNK_OVERLAP small_fixed_config))
               (py_split (content (cs ! 2)))
              = take (nat (CHUNK_OVERLAP small_fixed_config)) (py_split (content (cs ! Suc 2)))
          \<and> take (nat (CHUNK_OVERLAP small_fixed_config)) (py_split (content (cs ! Suc 2)))
              = [''fights''])"
proof -
  have h1: "0 < CHUNK_OVERLAP small_fixed_config"
    and h2: "CHUNK_OVERLAP small_fixed_config < CHUNK_SIZE small_fixed_config"
    and h3: "\<not> SMART_CHUNKING small_fixed_config"
    by (simp_all add: small_fixed_config_def default_config_def)
  have n: "length (py_split (doc_content robowar_doc)) = 11" by code_simp
  have h4: "CHUNK_SIZE small_fixed_config < int (length (py_split (doc_content robowar_doc)))"
    unfolding n by (simp add: small_fixed_config_def)
  have e: "map_sum id (map (\<lambda>c. py_split (content c))) (chunk_document small_fixed_config robowar_doc)
             = Inr [[''Movie:'', ''RoboWar.'', ''Year:'', ''1999.''],
                    [''1999.'', ''Genres:'', ''Sci-Fi.'', ''Plot:''],
                    [''Plot:'', ''A'', ''robot'', ''fights''],
                    [''fights'', ''crime.'']]"
    by code_simp
  from fixed_size_chunks_overlap [OF h1 h2 h3 h4] obtain cs where
    cs: "chunk_document small_fixed_config robowar_doc = Inr cs"
    and ov: "\<forall>k. Suc k < length cs \<longrightarrow>
               drop (nat (CHUNK_SIZE small_fixed_config) - nat (CHUNK_OVERLAP small_fixed_config))
                 (py_split (content (cs ! k)))
               = take (nat (CHUNK_OVERLAP small_fixed_config)) (py_split (content (cs ! Suc k)))"
    by blast
  from e cs have m: "map (\<lambda>c. py_split (content c)) cs
              = [[''Movie:'', ''RoboWar.'', ''Year:'', ''1999.''],
                 [''1999.'', ''Genres:'', ''Sci-Fi.'', ''Plot:''],
                 [''Plot:'', ''A'', ''robot'', ''fights''],
                 [''fights'', ''crime.'']]" by simp
  have "length (map (\<lambda>c. py_split (content c)) cs) = 4" unfolding m by simp
  then have l: "length cs = 4" by simp
  with ov have o2: "drop (nat (CHUNK_SIZE small_fixed_config) - nat (CHUNK_OVERLAP small_fixed_config))
                 (py_split (content (cs ! 2)))
               = take (nat (CHUNK_OVERLAP small_fixed_config)) (py_split (content (cs ! Suc 2)))"
    by simp
  from l have "py_split (content (cs ! Suc 2)) = map (\<lambda>c. py_split (content c)) cs ! Suc 2"
    by simp
  then have "py_split (content (cs ! Suc 2)) = [''fights'', ''crime.'']"
    unfolding m by simp
  then have t: "take (nat (CHUNK_OVERLAP small_fixed_config)) (py_split (content (cs ! Suc 2)))
              = [''fights'']"
    by (simp add: small_fixed_config_def)
  show ?thesis
    by (intro conjI exI [of _ cs]) (rule h1 h2 h3 n cs l o2 t)+
qed
text \<open>
  The numbering of the fixed-size chunks (see claim C1): under every valid configuration
  the first two chunks of a document carry the same identifier, while the sentence-aware
  chunks are numbered in sequence.
\<close>

lemma fixed_size_first_ids_collide:
  assumes ov: "0 < CHUNK_OVERLAP cfg" "CHUNK_OVERLAP cfg < CHUNK_SIZE cfg"
    and fixed: "\<not> SMART_CHUNKING cfg"
    and long: "CHUNK_SIZE cfg < int (length (py_split (doc_content doc)))"
  shows "\<exists>cs. chunk_document cfg doc = Inr cs \<and> 2 \<le> length cs
           \<and> chunk_id (cs ! 0) = title (doc_metadata doc) @ ''_0''
           \<and> chunk_id (cs ! 1) = title (doc_metadata doc) @ ''_0''"
proof -
  let ?words = "py_split (doc_content doc)"
  let ?S = "CHUNK_SIZE cfg"
  let ?step = "CHUNK_SIZE cfg - CHUNK_OVERLAP cfg"
  from fixed_size_chunking_windows [OF ov fixed long] obtain cs where
    cd: "chunk_document cfg doc = Inr cs" and ne: "cs \<noteq> []"
    and ids: "\<forall>k<length cs. chunk_id (cs ! k)
                 = title (doc_metadata doc) @ ''_'' @ str_int (int k * ?step div ?S)"
    and last: "length ?words \<le> (length cs - 1) * nat ?step + nat ?S"
    by blast
  have two: "2 \<le> length cs"
  proof (rule ccontr)
    assume "\<not> 2 \<le> length cs"
    moreover from ne have "length cs \<noteq> 0" by simp
    ultimately have "length cs = 1" by linarith
    with last have "length ?words \<le> nat ?S" by simp
    with long ov show False by linarith
  qed
  have z: "str_int 0 = ''0''"
    by code_simp
  from ov have dv: "?step div ?S = 0" by (simp add: div_pos_pos_trivial)
  from two have "0 < length cs" "1 < length cs" by linarith+
  with ids have "chunk_id (cs ! 0) = title (doc_metadata doc) @ ''_'' @ str_int (int 0 * ?step div ?S)"
    "chunk_id (cs ! 1) = title (doc_metadata doc) @ ''_'' @ str_int (int 1 * ?step div ?S)"
    by blast+
  with dv z have "chunk_id (cs ! 0) = title (doc_metadata doc) @ ''_0''"
    "chunk_id (cs ! 1) = title (doc_metadata doc) @ ''_0''"
    by simp_all
  with cd two show ?thesis by blast
qed

lemma semantic_chunk_ids_sequential:
  "map chunk_id (semantic_chunking cfg content_text doc)
     = map (\<lambda>k. title (doc_metadata doc) @ ''_'' @ str_int (int k))
         [0..<length (semantic_chunking cfg content_text doc)]"
  by (simp add: semantic_chunking_groups chunk_id_numbered_chunks)

end
